theory Spec2Isabelle
  imports Complex_Main
begin

section \<open>Data model\<close>

text \<open>
  \<^verbatim>\<open>type CellValue = string | number | boolean | null\<close>. Numbers are modelled as reals;
  the code only ever compares them with \<open>0\<close>.
\<close>

datatype CellValue = VNull | VStr string | VNum real | VBool bool

text \<open>
  A value a JavaScript \<^verbatim>\<open>throw\<close> can carry: an \<^verbatim>\<open>Error\<close> instance with its message
  (what the document model throws), or anything else.
\<close>

datatype thrown = ErrorObj string | NonError

text \<open>
  An address in A1 notation, kept in its parsed components: \<^verbatim>\<open>"EU1"\<close> is
  \<open>Cell ''EU'' 1\<close>, \<^verbatim>\<open>"B2:B10"\<close> is \<open>Span ''B'' 2 ''B'' 10\<close>; any other text the agent
  may have put into \<^verbatim>\<open>range\<close> is \<open>OtherText\<close>.
\<close>

datatype address = Cell string nat | Span string nat string nat | OtherText string

text \<open>\<^verbatim>\<open>address.split(":")[0]\<close>\<close>

fun split_first :: "address \<Rightarrow> address" where
  "split_first (Cell c r) = Cell c r"
| "split_first (Span c r c2 r2) = Cell c r"
| "split_first (OtherText s) = OtherText (takeWhile (\<lambda>ch. ch \<noteq> CHR '':'') s)"

text \<open>
  The fields of \<^verbatim>\<open>ExcelAction\<close> that the write and formula paths read. \<^verbatim>\<open>type\<close>,
  \<^verbatim>\<open>range\<close>, \<^verbatim>\<open>value\<close>, \<^verbatim>\<open>values\<close>, \<^verbatim>\<open>formula\<close>, \<^verbatim>\<open>formulas\<close> carry the prefix \<open>a\<close>;
  an optional field is an \<open>option\<close>; \<open>allowOverwrite\<close> is the truthiness of the flag.
  The payload fields of the other action kinds live in the record's extension.
\<close>

record ExcelAction =
  atype :: string
  arange :: address
  avalue :: "CellValue option"
  avalues :: "CellValue list list option"
  aformula :: "string option"
  aformulas :: "string list list option"
  allowOverwrite :: bool
  sheetName :: "string option"

section \<open>The host document\<close>

text \<open>
  The spreadsheet is the external document model; the grid is taken as unbounded. A
  rectangle of cells has a top-left column and row (both counted from 1) and a size.
\<close>

record rect =
  col0 :: nat
  row0 :: nat
  ncols :: nat
  nrows :: nat

text \<open>
  The document: the value of every cell (an empty cell reads as the empty string), the
  used range the host reports (\<open>None\<close> is the null object), the host's formula engine,
  and the faults still to come: each \<^verbatim>\<open>Excel.run\<close> batch consumes the head of \<open>faults\<close>
  and throws it when it is \<open>Some\<close>.
\<close>

record doc =
  cells :: "nat \<times> nat \<Rightarrow> CellValue"
  used :: "rect option"
  evalf :: "string \<Rightarrow> CellValue"
  faults :: "thrown option list"

definition next_fault :: "doc \<Rightarrow> thrown option" where
  "next_fault d = (case faults d of [] \<Rightarrow> None | f # fs \<Rightarrow> f)"

definition pop_fault :: "doc \<Rightarrow> doc" where
  "pop_fault d = d\<lparr>faults := tl (faults d)\<rparr>"

text \<open>
  \<^verbatim>\<open>await Excel.run(async (context) => { ... })\<close>: the batch either throws the pending
  fault, or runs its body; a body that throws leaves the cells as they were.
\<close>

definition Excel_run :: "doc \<Rightarrow> (doc \<Rightarrow> thrown + 'a \<times> doc) \<Rightarrow> (thrown + 'a) \<times> doc" where
  "Excel_run d body =
     (case next_fault d of
        Some t \<Rightarrow> (Inl t, pop_fault d)
      | None \<Rightarrow> (case body (pop_fault d) of
                   Inl t \<Rightarrow> (Inl t, pop_fault d)
                 | Inr (x, d') \<Rightarrow> (Inr x, d')))"

text \<open>Column letters as the host reads them: A=1, ..., Z=26, AA=27; case is ignored.\<close>

definition letter_val :: "char \<Rightarrow> nat" where
  "letter_val ch =
     (let k = (of_char ch :: nat) in
      if 65 \<le> k \<and> k \<le> 90 then k - 64
      else if 97 \<le> k \<and> k \<le> 122 then k - 96
      else 0)"

definition col_index :: "string \<Rightarrow> nat" where
  "col_index s = foldl (\<lambda>acc ch. acc * 26 + letter_val ch) 0 s"

definition valid_ref :: "string \<Rightarrow> nat \<Rightarrow> bool" where
  "valid_ref c r \<longleftrightarrow> c \<noteq> [] \<and> list_all (\<lambda>ch. letter_val ch \<noteq> 0) c \<and> 1 \<le> r"

definition invalid_address :: thrown where
  "invalid_address = ErrorObj ''InvalidArgument''"

text \<open>
  \<^verbatim>\<open>sheet.getRange(address)\<close>: a cell, or the rectangle between two corners given in
  either order; anything else is rejected by the host.
\<close>

fun getRange :: "address \<Rightarrow> thrown + rect" where
  "getRange (Cell c r) =
     (if valid_ref c r
      then Inr \<lparr>col0 = col_index c, row0 = r, ncols = 1, nrows = 1\<rparr>
      else Inl invalid_address)"
| "getRange (Span c1 r1 c2 r2) =
     (if valid_ref c1 r1 \<and> valid_ref c2 r2
      then Inr \<lparr>col0 = min (col_index c1) (col_index c2), row0 = min r1 r2,
                ncols = max (col_index c1) (col_index c2) - min (col_index c1) (col_index c2) + 1,
                nrows = max r1 r2 - min r1 r2 + 1\<rparr>
      else Inl invalid_address)"
| "getRange (OtherText s) = Inl invalid_address"

text \<open>
  \<^verbatim>\<open>range.getResizedRange(deltaRows, deltaColumns)\<close>: same top-left cell, the size changed
  by the deltas; a range must keep at least one row and one column.
\<close>

definition getResizedRange :: "rect \<Rightarrow> int \<Rightarrow> int \<Rightarrow> thrown + rect" where
  "getResizedRange rc dr dc =
     (if 1 \<le> int (nrows rc) + dr \<and> 1 \<le> int (ncols rc) + dc
      then Inr (rc\<lparr>nrows := nat (int (nrows rc) + dr), ncols := nat (int (ncols rc) + dc)\<rparr>)
      else Inl invalid_address)"

text \<open>\<^verbatim>\<open>range.values\<close> after \<^verbatim>\<open>load\<close> and \<^verbatim>\<open>sync\<close>: the rows of the rectangle, top to bottom.\<close>

definition range_values :: "doc \<Rightarrow> rect \<Rightarrow> CellValue list list" where
  "range_values d rc =
     map (\<lambda>r. map (\<lambda>c. cells d (c, r)) [col0 rc ..< col0 rc + ncols rc])
         [row0 rc ..< row0 rc + nrows rc]"

definition in_rect :: "rect \<Rightarrow> nat \<times> nat \<Rightarrow> bool" where
  "in_rect rc p \<longleftrightarrow>
     col0 rc \<le> fst p \<and> fst p < col0 rc + ncols rc \<and> row0 rc \<le> snd p \<and> snd p < row0 rc + nrows rc"

definition fits :: "rect \<Rightarrow> 'a list list \<Rightarrow> bool" where
  "fits rc m \<longleftrightarrow> length m = nrows rc \<and> list_all (\<lambda>row. length row = ncols rc) m"

definition size_mismatch :: thrown where
  "size_mismatch = ErrorObj ''The number of rows or columns in the input array does not match the size or dimensions of the range.''"

text \<open>The smallest rectangle around the used range and a newly written rectangle.\<close>

definition cover :: "rect option \<Rightarrow> rect \<Rightarrow> rect option" where
  "cover u rc =
     (case u of
        None \<Rightarrow> Some rc
      | Some b \<Rightarrow>
          Some \<lparr>col0 = min (col0 b) (col0 rc), row0 = min (row0 b) (row0 rc),
                ncols = max (col0 b + ncols b) (col0 rc + ncols rc) - min (col0 b) (col0 rc),
                nrows = max (row0 b + nrows b) (row0 rc + nrows rc) - min (row0 b) (row0 rc)\<rparr>)"

text \<open>
  \<^verbatim>\<open>range.values = matrix\<close> (applied at the next \<^verbatim>\<open>sync\<close>): the host rejects a matrix whose
  size is not the size of the range (the error that the hints of \<^verbatim>\<open>requestErrorCorrection\<close>
  quote); otherwise each cell of the range takes its entry.
\<close>

definition setValues :: "rect \<Rightarrow> CellValue list list \<Rightarrow> doc \<Rightarrow> thrown + doc" where
  "setValues rc m d =
     (if fits rc m
      then Inr (d\<lparr>cells := (\<lambda>p. if in_rect rc p
                                   then m ! (snd p - row0 rc) ! (fst p - col0 rc)
                                   else cells d p),
                  used := cover (used d) rc\<rparr>)
      else Inl size_mismatch)"

text \<open>\<^verbatim>\<open>range.formulas = matrix\<close>: as for values; a cell then shows what its formula evaluates to.\<close>

definition setFormulas :: "rect \<Rightarrow> string list list \<Rightarrow> doc \<Rightarrow> thrown + doc" where
  "setFormulas rc m d = setValues rc (map (map (evalf d)) m) d"

section \<open>String helpers\<close>

text \<open>\<^verbatim>\<open>s.startsWith(p)\<close> and \<^verbatim>\<open>s.includes_s(p)\<close>\<close>

fun startsWith :: "string \<Rightarrow> string \<Rightarrow> bool" where
  "startsWith s [] = True"
| "startsWith [] (p # ps) = False"
| "startsWith (c # cs) (p # ps) = (c = p \<and> startsWith cs ps)"

fun includes_s :: "string \<Rightarrow> string \<Rightarrow> bool" where
  "includes_s [] p = (p = [])"
| "includes_s (c # cs) p = (startsWith (c # cs) p \<or> includes_s cs p)"

section \<open>Result validator\<close>

text \<open>\<^verbatim>\<open>cell !== null && cell !== "" && cell !== undefined\<close>\<close>

definition nonEmpty :: "CellValue \<Rightarrow> bool" where
  "nonEmpty cell \<longleftrightarrow> cell \<noteq> VNull \<and> cell \<noteq> VStr []"

text \<open>
  The messages of the validator are template strings; each is modelled by its template and
  the values it interpolates.
\<close>

datatype ValidationMessage =
    NoDataWritten address nat nat
  | IncompleteTable nat nat
  | AllFormulasErrored nat
  | ValidationOk nat nat
  | CouldNotValidate

record ValidationResult =
  passed :: bool
  vmessage :: ValidationMessage
  vvalues :: "CellValue list list option"

text \<open>
  The counting loop: \<open>(hasData, emptyCount, totalCells)\<close> updated cell by cell, row by row.
\<close>

definition count_cell :: "CellValue \<Rightarrow> bool \<times> nat \<times> nat \<Rightarrow> bool \<times> nat \<times> nat" where
  "count_cell cell st =
     (case st of (hasData, emptyCount, totalCells) \<Rightarrow>
        if nonEmpty cell then (True, emptyCount, totalCells + 1)
        else (hasData, emptyCount + 1, totalCells + 1))"

definition count_cells :: "CellValue list list \<Rightarrow> bool \<times> nat \<times> nat" where
  "count_cells vs = fold (\<lambda>row st. fold count_cell row st) vs (False, 0, 0)"

text \<open>
  \<^verbatim>\<open>const cellStr = String(cell || ""); cellStr.startsWith("#") && (cellStr.includes_s("ERROR") || ...)\<close>.
  The text of a number or of a boolean never starts with \<^verbatim>\<open>#\<close>, so only strings can match.
\<close>

definition isErrorCell :: "CellValue \<Rightarrow> bool" where
  "isErrorCell cell =
     (case cell of
        VStr s \<Rightarrow> startsWith s ''#'' \<and>
          (includes_s s ''ERROR'' \<or> includes_s s ''REF'' \<or> includes_s s ''VALUE''
           \<or> includes_s s ''NAME'' \<or> includes_s s ''DIV'')
      | _ \<Rightarrow> False)"

definition count_errors :: "CellValue list list \<Rightarrow> nat" where
  "count_errors vs =
     fold (\<lambda>row n. fold (\<lambda>cell k. if isErrorCell cell then k + 1 else k) row n) vs 0"

text \<open>
  \<^verbatim>\<open>action.type === "write" ? (action.values && action.values.length > 0)
     : (action.formula || (action.formulas && action.formulas.length > 0))\<close>, as a truth value.
\<close>

definition expectedData :: "'x ExcelAction_scheme \<Rightarrow> bool" where
  "expectedData action =
     (if atype action = ''write''
      then (case avalues action of Some vs \<Rightarrow> vs \<noteq> [] | None \<Rightarrow> False)
      else (case aformula action of Some f \<Rightarrow> f \<noteq> [] | None \<Rightarrow> False)
           \<or> (case aformulas action of Some fs \<Rightarrow> fs \<noteq> [] | None \<Rightarrow> False))"

text \<open>\<^verbatim>\<open>action.type === "write" && action.values && action.values.length > 1\<close>\<close>

definition multiRowWrite :: "'x ExcelAction_scheme \<Rightarrow> bool" where
  "multiRowWrite action \<longleftrightarrow>
     atype action = ''write'' \<and> (case avalues action of Some vs \<Rightarrow> 1 < length vs | None \<Rightarrow> False)"

text \<open>
  The part of \<^verbatim>\<open>validateWriteAction\<close> after the re-read. \<^verbatim>\<open>emptyCount / totalCells > 0.3\<close> is
  written as \<open>3 * totalCells < 10 * emptyCount\<close>: the two agree for every sheet-sized count, and
  with \<open>totalCells = 0\<close> both are false (the quotient is NaN, and \<open>emptyCount > 3\<close> fails).
\<close>

definition classify ::
  "'x ExcelAction_scheme \<Rightarrow> address \<Rightarrow> CellValue list list \<Rightarrow> ValidationResult" where
  "classify action finalRange vs =
     (case count_cells vs of (hasData, emptyCount, totalCells) \<Rightarrow>
        if expectedData action \<and> \<not> hasData
        then \<lparr>passed = False, vmessage = NoDataWritten finalRange emptyCount totalCells,
              vvalues = Some vs\<rparr>
        else if multiRowWrite action \<and> 3 * totalCells < 10 * emptyCount \<and> 3 < emptyCount
        then \<lparr>passed = False, vmessage = IncompleteTable emptyCount totalCells,
              vvalues = Some vs\<rparr>
        else if atype action = ''formula'' \<and> 0 < count_errors vs \<and> count_errors vs = totalCells
        then \<lparr>passed = False, vmessage = AllFormulasErrored (count_errors vs),
              vvalues = Some vs\<rparr>
        else \<lparr>passed = True, vmessage = ValidationOk (totalCells - emptyCount) totalCells,
              vvalues = Some vs\<rparr>)"

text \<open>\<^verbatim>\<open>action.values[0]?.length || 1\<close>\<close>

definition firstRowLength :: "'a list list \<Rightarrow> nat" where
  "firstRowLength vs = (case vs of [] \<Rightarrow> 1 | row # rest \<Rightarrow> if length row = 0 then 1 else length row)"

text \<open>The re-read inside the validator's \<^verbatim>\<open>Excel.run\<close>: which range is loaded depends on the action.\<close>

definition validate_read ::
  "'x ExcelAction_scheme \<Rightarrow> address \<Rightarrow> doc \<Rightarrow> thrown + CellValue list list \<times> doc" where
  "validate_read action finalRange d =
     (if atype action = ''write'' \<and> avalues action \<noteq> None
      then (case getRange (split_first finalRange) of
              Inl t \<Rightarrow> Inl t
            | Inr startCell \<Rightarrow>
               (case getResizedRange startCell (int (length (the (avalues action))) - 1)
                                     (int (firstRowLength (the (avalues action))) - 1) of
                  Inl t \<Rightarrow> Inl t
                | Inr targetRange \<Rightarrow> Inr (range_values d targetRange, d)))
      else if atype action = ''formula''
      then (case getRange finalRange of
              Inl t \<Rightarrow> Inl t
            | Inr rng \<Rightarrow> Inr (range_values d rng, d))
      else Inr ([], d))"

text \<open>
  \<^verbatim>\<open>validateWriteAction\<close>: the re-read and the classification are inside \<^verbatim>\<open>try\<close>; the
  \<^verbatim>\<open>catch\<close> returns \<^verbatim>\<open>passed: true\<close> with "No se pudo validar la accion" and no values.
\<close>

definition validateWriteAction ::
  "'x ExcelAction_scheme \<Rightarrow> address \<Rightarrow> doc \<Rightarrow> ValidationResult \<times> doc" where
  "validateWriteAction action finalRange d =
     (case Excel_run d (validate_read action finalRange) of
        (Inl t, d') \<Rightarrow> (\<lparr>passed = True, vmessage = CouldNotValidate, vvalues = None\<rparr>, d')
      | (Inr vs, d') \<Rightarrow> (classify action finalRange vs, d'))"

section \<open>Collision guard\<close>

record OverwriteCheckResult =
  hasData :: bool
  nonEmptyCells :: nat
  totalCells :: nat

text \<open>The counting loop of \<^verbatim>\<open>checkRangeForData\<close>.\<close>

definition count_nonEmpty :: "CellValue list list \<Rightarrow> nat" where
  "count_nonEmpty vs =
     fold (\<lambda>row n. fold (\<lambda>cell k. if nonEmpty cell then k + 1 else k) row n) vs 0"

definition check_body ::
  "address \<Rightarrow> nat \<Rightarrow> nat \<Rightarrow> doc \<Rightarrow> thrown + OverwriteCheckResult \<times> doc" where
  "check_body address numRows numCols d =
     (case getRange (split_first address) of
        Inl t \<Rightarrow> Inl t
      | Inr startCell \<Rightarrow>
         (case getResizedRange startCell (int numRows - 1) (int numCols - 1) of
            Inl t \<Rightarrow> Inl t
          | Inr targetRange \<Rightarrow>
              Inr (\<lparr>hasData = 0 < count_nonEmpty (range_values d targetRange),
                    nonEmptyCells = count_nonEmpty (range_values d targetRange),
                    totalCells = numRows * numCols\<rparr>, d)))"

text \<open>
  \<^verbatim>\<open>checkRangeForData\<close>: the \<^verbatim>\<open>catch\<close> returns
  \<^verbatim>\<open>{ hasData: false, nonEmptyCells: 0, totalCells: 0 }\<close>.
\<close>

definition checkRangeForData ::
  "address \<Rightarrow> nat \<Rightarrow> nat \<Rightarrow> doc \<Rightarrow> OverwriteCheckResult \<times> doc" where
  "checkRangeForData address numRows numCols d =
     (case Excel_run d (check_body address numRows numCols) of
        (Inl t, d') \<Rightarrow> (\<lparr>hasData = False, nonEmptyCells = 0, totalCells = 0\<rparr>, d')
      | (Inr r, d') \<Rightarrow> (r, d'))"

text \<open>
  \<^verbatim>\<open>numberToColumn\<close>: the \<^verbatim>\<open>while (n > 0)\<close> loop, the letters accumulated in front of
  \<open>result\<close>.
\<close>

function numberToColumn_loop :: "nat \<Rightarrow> string \<Rightarrow> string" where
  "numberToColumn_loop n result =
     (if 0 < n
      then numberToColumn_loop ((n - 1) div 26) (char_of (65 + (n - 1) mod 26) # result)
      else result)"
  by pat_completeness auto
termination
  by (relation "measure fst") (auto simp: div_le_dividend le_imp_less_Suc)

definition numberToColumn :: "nat \<Rightarrow> string" where
  "numberToColumn num = numberToColumn_loop num []"

text \<open>The nested scan with \<^verbatim>\<open>break\<close>: no cell of the loaded range is non-empty.\<close>

definition isEmptyRange :: "CellValue list list \<Rightarrow> bool" where
  "isEmptyRange vs \<longleftrightarrow> list_all (list_all (\<lambda>cell. \<not> nonEmpty cell)) vs"

text \<open>
  The range tested for the candidate that starts \<open>offset\<close> columns after the used range's
  column count:
  \<^verbatim>\<open>`${startColLetter}1:${endColLetter}${Math.max(numRows, usedRange.rowCount)}`\<close>.
\<close>

definition testRange :: "rect \<Rightarrow> nat \<Rightarrow> nat \<Rightarrow> nat \<Rightarrow> address" where
  "testRange usedRange numRows numCols offset =
     Span (numberToColumn (ncols usedRange + offset)) 1
          (numberToColumn (ncols usedRange + offset + numCols - 1))
          (max numRows (nrows usedRange))"

text \<open>\<^verbatim>\<open>for (let offset = 3; offset <= 20; offset++)\<close>, over the offsets still to try.\<close>

fun try_offsets ::
  "doc \<Rightarrow> rect \<Rightarrow> nat \<Rightarrow> nat \<Rightarrow> nat list \<Rightarrow> thrown + address option" where
  "try_offsets d usedRange numRows numCols [] = Inr None"
| "try_offsets d usedRange numRows numCols (offset # rest) =
     (case getRange (testRange usedRange numRows numCols offset) of
        Inl t \<Rightarrow> Inl t
      | Inr newTestRange \<Rightarrow>
          if isEmptyRange (range_values d newTestRange)
          then Inr (Some (Cell (numberToColumn (ncols usedRange + offset)) 1))
          else try_offsets d usedRange numRows numCols rest)"

definition find_body :: "nat \<Rightarrow> nat \<Rightarrow> doc \<Rightarrow> thrown + address option \<times> doc" where
  "find_body numRows numCols d =
     (case used d of
        None \<Rightarrow> Inr (Some (Cell ''A'' 1), d)
      | Some usedRange \<Rightarrow>
         (case getRange (testRange usedRange numRows numCols 2) of
            Inl t \<Rightarrow> Inl t
          | Inr tr \<Rightarrow>
              if isEmptyRange (range_values d tr)
              then Inr (Some (Cell (numberToColumn (ncols usedRange + 2)) 1), d)
              else (case try_offsets d usedRange numRows numCols [3 ..< 21] of
                      Inl t \<Rightarrow> Inl t
                    | Inr found \<Rightarrow> Inr (found, d))))"

text \<open>\<^verbatim>\<open>findEmptyRangeForData\<close>: the \<^verbatim>\<open>catch\<close> returns \<^verbatim>\<open>null\<close>.\<close>

definition findEmptyRangeForData :: "nat \<Rightarrow> nat \<Rightarrow> doc \<Rightarrow> address option \<times> doc" where
  "findEmptyRangeForData numRows numCols d =
     (case Excel_run d (find_body numRows numCols) of
        (Inl t, d') \<Rightarrow> (None, d')
      | (Inr found, d') \<Rightarrow> (found, d'))"

section \<open>Dispatch executor\<close>

text \<open>
  The messages of the executor are template strings; each is modelled by its template and
  the values it interpolates. The \<open>nat option\<close> is the overwrite warning put in front
  (\<open>Some n\<close>: "Se evito sobreescribir n celdas"; \<open>None\<close>: no warning).
\<close>

datatype ExecMessage =
    DatosEscritos "nat option" nat nat address
  | ValorEscrito "nat option" address
  | SinDatos address
  | FormulasEscritas "nat option" address
  | FormulaEscrita "nat option" address
  | SinFormula address
  | OtherMessage string
  | NoSePuedeEscribir address nat
  | ErrorEn address

record 'x ActionResult =
  success :: bool
  r_action :: "'x ExcelAction_scheme"
  r_message :: ExecMessage
  r_error :: "string option"
  validated :: "bool option"
  validationPassed :: "bool option"
  validationMessage :: "ValidationMessage option"
  actualValues :: "CellValue list list option"

text \<open>\<^verbatim>\<open>action.values?.length || action.formulas?.length || 1\<close>\<close>

definition guardRows :: "'x ExcelAction_scheme \<Rightarrow> nat" where
  "guardRows action =
     (let viaFormulas = (case aformulas action of
                           Some fs \<Rightarrow> if length fs = 0 then 1 else length fs
                         | None \<Rightarrow> 1)
      in case avalues action of
           Some vs \<Rightarrow> if length vs = 0 then viaFormulas else length vs
         | None \<Rightarrow> viaFormulas)"

text \<open>\<^verbatim>\<open>action.values?.[0]?.length || action.formulas?.[0]?.length || 1\<close>\<close>

definition guardCols :: "'x ExcelAction_scheme \<Rightarrow> nat" where
  "guardCols action =
     (let viaFormulas = (case aformulas action of
                           Some (row # rest) \<Rightarrow> if length row = 0 then 1 else length row
                         | _ \<Rightarrow> 1)
      in case avalues action of
           Some (row # rest) \<Rightarrow> if length row = 0 then viaFormulas else length row
         | _ \<Rightarrow> viaFormulas)"

text \<open>\<^verbatim>\<open>f && !f.startsWith("=") ? `=${f}` : f\<close>\<close>

definition normalizeFormula :: "string \<Rightarrow> string" where
  "normalizeFormula f = (if f \<noteq> [] \<and> \<not> startsWith f ''='' then ''='' @ f else f)"

text \<open>
  The \<^verbatim>\<open>switch\<close> inside the executor's \<^verbatim>\<open>Excel.run\<close>. The write and formula branches are
  modelled call by call; the other branches of the switch (formatting, sheets, pivots and
  so on, each a sequence of document-model calls that may throw) are the parameter
  \<open>other\<close>.
\<close>

definition dispatch ::
  "('x ExcelAction_scheme \<Rightarrow> doc \<Rightarrow> thrown + ExecMessage \<times> doc) \<Rightarrow> 'x ExcelAction_scheme \<Rightarrow>
     address \<Rightarrow> nat option \<Rightarrow> doc \<Rightarrow> thrown + ExecMessage \<times> doc" where
  "dispatch other action finalRange warning d =
     (if atype action = ''write'' then
        (if avalues action \<noteq> None \<and> the (avalues action) \<noteq> [] then
           (case getRange (split_first finalRange) of
              Inl t \<Rightarrow> Inl t
            | Inr startCell \<Rightarrow>
               (case getResizedRange startCell (int (length (the (avalues action))) - 1)
                                     (int (firstRowLength (the (avalues action))) - 1) of
                  Inl t \<Rightarrow> Inl t
                | Inr targetRange \<Rightarrow>
                   (case setValues targetRange (the (avalues action)) d of
                      Inl t \<Rightarrow> Inl t
                    | Inr d' \<Rightarrow>
                        Inr (DatosEscritos warning (length (the (avalues action)))
                               (firstRowLength (the (avalues action))) (split_first finalRange), d'))))
         else if avalue action \<noteq> None then
           (case getRange finalRange of
              Inl t \<Rightarrow> Inl t
            | Inr rng \<Rightarrow>
               (case setValues rng [[the (avalue action)]] d of
                  Inl t \<Rightarrow> Inl t
                | Inr d' \<Rightarrow> Inr (ValorEscrito warning finalRange, d')))
         else Inr (SinDatos finalRange, d))
      else if atype action = ''formula'' then
        (if aformulas action \<noteq> None then
           (case getRange finalRange of
              Inl t \<Rightarrow> Inl t
            | Inr rng \<Rightarrow>
               (case setFormulas rng (map (map normalizeFormula) (the (aformulas action))) d of
                  Inl t \<Rightarrow> Inl t
                | Inr d' \<Rightarrow> Inr (FormulasEscritas warning finalRange, d')))
         else if aformula action \<noteq> None \<and> the (aformula action) \<noteq> [] then
           (case getRange finalRange of
              Inl t \<Rightarrow> Inl t
            | Inr rng \<Rightarrow>
               (case setFormulas rng
                       [[if startsWith (the (aformula action)) ''='' then the (aformula action)
                         else ''='' @ the (aformula action)]] d of
                  Inl t \<Rightarrow> Inl t
                | Inr d' \<Rightarrow> Inr (FormulaEscrita warning finalRange, d')))
         else Inr (SinFormula finalRange, d))
      else other action d)"

text \<open>
  The overwrite protection at the head of \<^verbatim>\<open>executeSingleAction\<close>: \<open>Inr\<close> is the range to
  write to and the warning; \<open>Inl\<close> is the early \<^verbatim>\<open>return\<close> of a failure result.
\<close>

definition existing_data_error :: string where
  "existing_data_error =
     ''El rango contiene datos existentes. Seleccione un rango vac'' @ [CHR 0xED]
       @ ''o o use allowOverwrite para forzar la escritura.''"

definition guard ::
  "'x ExcelAction_scheme \<Rightarrow> doc \<Rightarrow> ('x ActionResult + address \<times> nat option) \<times> doc" where
  "guard action d =
     (if (atype action = ''write'' \<or> atype action = ''formula'') \<and> \<not> allowOverwrite action
      then
        (case checkRangeForData (split_first (arange action)) (guardRows action) (guardCols action) d of
           (overwriteCheck, d1) \<Rightarrow>
             if hasData overwriteCheck
             then (case findEmptyRangeForData (guardRows action) (guardCols action) d1 of
                     (Some emptyRange, d2) \<Rightarrow>
                        (Inr (emptyRange, Some (nonEmptyCells overwriteCheck)), d2)
                   | (None, d2) \<Rightarrow>
                        (Inl \<lparr>success = False, r_action = action,
                              r_message = NoSePuedeEscribir (split_first (arange action))
                                            (nonEmptyCells overwriteCheck),
                              r_error = Some existing_data_error,
                              validated = None, validationPassed = None,
                              validationMessage = None, actualValues = None\<rparr>, d2))
             else (Inr (arange action, None), d1))
      else (Inr (arange action, None), d))"

text \<open>
  The body of the \<^verbatim>\<open>try\<close> block of \<^verbatim>\<open>executeSingleAction\<close>: guard, dispatch inside
  \<^verbatim>\<open>Excel.run\<close>, then validation for write and formula actions. \<open>Inl\<close> is a value thrown
  out of the block.
\<close>

definition executeSingleAction_try ::
  "('x ExcelAction_scheme \<Rightarrow> doc \<Rightarrow> thrown + ExecMessage \<times> doc) \<Rightarrow> 'x ExcelAction_scheme \<Rightarrow>
     doc \<Rightarrow> (thrown + 'x ActionResult) \<times> doc" where
  "executeSingleAction_try other action d =
     (case guard action d of
        (Inl failure, d1) \<Rightarrow> (Inr failure, d1)
      | (Inr (finalRange, warning), d1) \<Rightarrow>
         (case Excel_run d1 (dispatch other action finalRange warning) of
            (Inl t, d2) \<Rightarrow> (Inl t, d2)
          | (Inr msg, d2) \<Rightarrow>
              if atype action = ''write'' \<or> atype action = ''formula''
              then (case validateWriteAction action finalRange d2 of
                      (validationResult, d3) \<Rightarrow>
                        (Inr \<lparr>success = True, r_action = action, r_message = msg, r_error = None,
                              validated = Some True,
                              validationPassed = Some (passed validationResult),
                              validationMessage = Some (vmessage validationResult),
                              actualValues = vvalues validationResult\<rparr>, d3))
              else (Inr \<lparr>success = True, r_action = action, r_message = msg, r_error = None,
                         validated = Some False, validationPassed = None,
                         validationMessage = None, actualValues = None\<rparr>, d2)))"

text \<open>\<^verbatim>\<open>error instanceof Error ? error.message : "Error desconocido"\<close>\<close>

definition errorMsg :: "thrown \<Rightarrow> string" where
  "errorMsg t = (case t of ErrorObj m \<Rightarrow> m | NonError \<Rightarrow> ''Error desconocido'')"

definition executeSingleAction ::
  "('x ExcelAction_scheme \<Rightarrow> doc \<Rightarrow> thrown + ExecMessage \<times> doc) \<Rightarrow> 'x ExcelAction_scheme \<Rightarrow>
     doc \<Rightarrow> 'x ActionResult \<times> doc" where
  "executeSingleAction other action d =
     (case executeSingleAction_try other action d of
        (Inr result, d') \<Rightarrow> (result, d')
      | (Inl t, d') \<Rightarrow>
          (\<lparr>success = False, r_action = action, r_message = ErrorEn (arange action),
            r_error = Some (errorMsg t), validated = Some False, validationPassed = None,
            validationMessage = None, actualValues = None\<rparr>, d'))"

text \<open>\<^verbatim>\<open>executeActions\<close>: one action after the other, each result pushed.\<close>

fun executeActions ::
  "('x ExcelAction_scheme \<Rightarrow> doc \<Rightarrow> thrown + ExecMessage \<times> doc) \<Rightarrow> 'x ExcelAction_scheme list \<Rightarrow>
     doc \<Rightarrow> 'x ActionResult list \<times> doc" where
  "executeActions other [] d = ([], d)"
| "executeActions other (action # rest) d =
     (case executeSingleAction other action d of
        (result, d1) \<Rightarrow>
          (case executeActions other rest d1 of
             (results, d2) \<Rightarrow> (result # results, d2)))"

section \<open>Example documents and actions\<close>

definition blank_doc :: doc where
  "blank_doc = \<lparr>cells = (\<lambda>p. VStr []), used = None, evalf = (\<lambda>f. VStr []), faults = []\<rparr>"

definition write_x :: ExcelAction where
  "write_x = \<lparr>atype = ''write'', arange = Cell ''A'' 1, avalue = None,
              avalues = Some [[VStr ''x'']], aformula = None, aformulas = None,
              allowOverwrite = False, sheetName = None\<rparr>"

definition faulty_doc :: doc where
  "faulty_doc = blank_doc\<lparr>faults := [Some (ErrorObj ''RichApi.Error'')]\<rparr>"

text \<open>The \<^verbatim>\<open>default\<close> branch of the switch, as an instance of the other branches.\<close>

definition unknown_action :: "ExcelAction \<Rightarrow> doc \<Rightarrow> thrown + ExecMessage \<times> doc" where
  "unknown_action action d =
     Inr (OtherMessage (''Acci'' @ [CHR 0xF3] @ ''n desconocida: '' @ atype action), d)"

text \<open>A sheet whose only content is "old" in A1.\<close>

definition old_doc :: doc where
  "old_doc = \<lparr>cells = (\<lambda>p. if p = (1, 1) then VStr ''old'' else VStr []),
              used = Some \<lparr>col0 = 1, row0 = 1, ncols = 1, nrows = 1\<rparr>,
              evalf = (\<lambda>f. VStr []), faults = []\<rparr>"

text \<open>The same sheet when the next \<^verbatim>\<open>Excel.run\<close> is going to throw.\<close>

definition probe_fault_doc :: doc where
  "probe_fault_doc = old_doc\<lparr>faults := [Some (ErrorObj ''RichApi.Error'')]\<rparr>"

text \<open>A sheet whose only content is "x" in C1: its used range is C1, one column wide.\<close>

definition c1_doc :: doc where
  "c1_doc = \<lparr>cells = (\<lambda>p. if p = (3, 1) then VStr ''x'' else VStr []),
             used = Some \<lparr>col0 = 3, row0 = 1, ncols = 1, nrows = 1\<rparr>,
             evalf = (\<lambda>f. VStr []), faults = []\<rparr>"

definition write_nowhere :: ExcelAction where
  "write_nowhere = write_x\<lparr>arange := OtherText ''Hoja inexistente''\<rparr>"

section \<open>Response parser\<close>

text \<open>
  Text is a list of code units; the model covers the units up to 255, so \<^verbatim>\<open>\s\<close> and
  \<^verbatim>\<open>trim\<close> see tab, line feed, vertical tab, form feed, carriage return, space and the
  no-break space.
\<close>

definition is_ws :: "char \<Rightarrow> bool" where
  "is_ws ch \<longleftrightarrow> (of_char ch :: nat) \<in> {9, 10, 11, 12, 13, 32, 160}"

definition trim :: "string \<Rightarrow> string" where
  "trim s = rev (dropWhile is_ws (rev (dropWhile is_ws s)))"

text \<open>\<^verbatim>\<open>s.indexOf(p)\<close>, \<open>None\<close> for -1.\<close>

fun indexOf :: "string \<Rightarrow> string \<Rightarrow> nat option" where
  "indexOf [] p = (if p = [] then Some 0 else None)"
| "indexOf (c # cs) p =
     (if startsWith (c # cs) p then Some 0 else map_option Suc (indexOf cs p))"

text \<open>\<^verbatim>\<open>s.endsWith(p)\<close>\<close>

definition endsWith :: "string \<Rightarrow> string \<Rightarrow> bool" where
  "endsWith s p = startsWith (rev s) (rev p)"

text \<open>
  What \<^verbatim>\<open>JSON.parse\<close> returns. An object is the list of its keys with their values, each key
  once. \<^verbatim>\<open>JSON.parse\<close> itself belongs to the runtime: the parser takes it as the parameter
  \<open>jp\<close>, with \<open>None\<close> for a thrown \<^verbatim>\<open>SyntaxError\<close>.
\<close>

datatype json = JNull | JBool bool | JNum real | JStr string | JArr "json list"
  | JObj "(string \<times> json) list"

record StructuredResponse =
  message :: string
  actions :: "json list option"
  thinking :: "json option"

text \<open>
  \<^verbatim>\<open>parsed.key\<close>: reading a property of \<^verbatim>\<open>null\<close> throws a \<^verbatim>\<open>TypeError\<close>; a value that is not
  an object has none of the keys read here (\<open>None\<close> is \<^verbatim>\<open>undefined\<close>).
\<close>

definition get_prop :: "json \<Rightarrow> string \<Rightarrow> thrown + json option" where
  "get_prop v key =
     (case v of
        JNull \<Rightarrow> Inl (ErrorObj ''TypeError'')
      | JObj kvs \<Rightarrow> Inr (map_of kvs key)
      | _ \<Rightarrow> Inr None)"

text \<open>The \<^verbatim>\<open>try\<close> block of \<^verbatim>\<open>tryParseJson\<close>; \<open>Inr None\<close> is falling out of the block.\<close>

definition tryParseJson_try ::
  "(string \<Rightarrow> json option) \<Rightarrow> string \<Rightarrow> thrown + StructuredResponse option" where
  "tryParseJson_try jp jsonStr =
     (case jp jsonStr of
        None \<Rightarrow> Inl (ErrorObj ''SyntaxError'')
      | Some parsed \<Rightarrow>
         (case get_prop parsed ''message'' of
            Inl t \<Rightarrow> Inl t
          | Inr (Some (JStr m)) \<Rightarrow>
              if m \<noteq> []
              then Inr (Some \<lparr>message = m,
                               actions = (case get_prop parsed ''actions'' of
                                            Inr (Some (JArr as)) \<Rightarrow> Some as
                                          | _ \<Rightarrow> None),
                               thinking = (case get_prop parsed ''thinking'' of
                                             Inr t \<Rightarrow> t
                                           | Inl e \<Rightarrow> None)\<rparr>)
              else Inr None
          | Inr other \<Rightarrow> Inr None))"

text \<open>\<^verbatim>\<open>tryParseJson\<close>: the \<^verbatim>\<open>catch\<close> logs, and the function returns \<^verbatim>\<open>null\<close>.\<close>

definition tryParseJson :: "(string \<Rightarrow> json option) \<Rightarrow> string \<Rightarrow> StructuredResponse option" where
  "tryParseJson jp jsonStr =
     (case tryParseJson_try jp jsonStr of Inl t \<Rightarrow> None | Inr r \<Rightarrow> r)"

text \<open>
  The tail of the two fence patterns, \<^verbatim>\<open>([\s\S]*?)\s*```\<close>: the lazy group is the shortest
  prefix after which, whitespace skipped, the closing fence stands.
\<close>

fun before_fence :: "string \<Rightarrow> string option" where
  "before_fence [] = None"
| "before_fence (c # cs) =
     (if startsWith (dropWhile is_ws (c # cs)) ''```'' then Some []
      else map_option ((#) c) (before_fence cs))"

text \<open>
  \<^verbatim>\<open>content.match(/```json\s*([\s\S]*?)\s*```/)\<close> and \<^verbatim>\<open>content.match(/```\s*([\s\S]*?)\s*```/)\<close>:
  group 1 of the leftmost match, for the opening text \<open>opening\<close>.
\<close>

fun fenced :: "string \<Rightarrow> string \<Rightarrow> string option" where
  "fenced opening [] = None"
| "fenced opening (c # cs) =
     (case (if startsWith (c # cs) opening
            then before_fence (dropWhile is_ws (drop (length opening) (c # cs)))
            else None) of
        Some g \<Rightarrow> Some g
      | None \<Rightarrow> fenced opening cs)"

definition is_brace :: "char \<Rightarrow> bool" where
  "is_brace ch \<longleftrightarrow> ch = CHR ''{'' \<or> ch = CHR ''}''"

text \<open>\<^verbatim>\<open>"type"\s*:\s*"calc"\<close> at the head of the text, and anywhere in it.\<close>

definition type_calc_here :: "string \<Rightarrow> bool" where
  \<open>type_calc_here s \<longleftrightarrow>
     startsWith s ''"type"'' \<and>
     startsWith (dropWhile is_ws (drop 6 s)) '':'' \<and>
     startsWith (dropWhile is_ws (drop 1 (dropWhile is_ws (drop 6 s)))) ''"calc"''\<close>

fun has_type_calc :: "string \<Rightarrow> bool" where
  "has_type_calc [] = False"
| "has_type_calc (c # cs) = (type_calc_here (c # cs) \<or> has_type_calc cs)"

text \<open>
  \<^verbatim>\<open>content.match(/\{[^{}]*"type"\s*:\s*"calc"[^{}]*\}/)\<close>: the leftmost opening brace whose
  brace-free continuation holds the tag and ends at a closing brace; the match is that span.
\<close>

fun calc_match :: "string \<Rightarrow> string option" where
  "calc_match [] = None"
| "calc_match (c # cs) =
     (if c = CHR ''{'' \<and> has_type_calc (takeWhile (\<lambda>ch. \<not> is_brace ch) cs)
         \<and> startsWith (dropWhile (\<lambda>ch. \<not> is_brace ch) cs) ''}''
      then Some (c # takeWhile (\<lambda>ch. \<not> is_brace ch) cs @ ''}'')
      else calc_match cs)"

text \<open>
  \<^verbatim>\<open>content.match(/\{[\s\S]*"message"[\s\S]*"actions"[\s\S]*\}/)\<close>: from the first opening
  brace to the last closing brace of the text, when the two keys and a closing brace follow in
  this order.
\<close>

definition object_match :: "string \<Rightarrow> string option" where
  \<open>object_match s =
     (case indexOf s ''{'' of
        None \<Rightarrow> None
      | Some i \<Rightarrow>
         (case indexOf (drop (i + 1) s) ''"message"'' of
            None \<Rightarrow> None
          | Some p \<Rightarrow>
             (case indexOf (drop (p + 9) (drop (i + 1) s)) ''"actions"'' of
                None \<Rightarrow> None
              | Some q \<Rightarrow>
                  if CHR ''}'' \<in> set (drop (q + 9) (drop (p + 9) (drop (i + 1) s)))
                  then Some (rev (dropWhile (\<lambda>ch. ch \<noteq> CHR ''}'') (rev (drop i s))))
                  else None)))\<close>

text \<open>\<^verbatim>\<open>/\{"type"\s*:\s*"[^"]+"/\<close> at the head of the text: the length of the match.\<close>

definition action_here :: "string \<Rightarrow> nat option" where
  \<open>action_here s =
     (let r1 = dropWhile is_ws (drop 7 s);
          r3 = dropWhile is_ws (drop 1 r1);
          body = takeWhile (\<lambda>ch. ch \<noteq> CHR 0x22) (drop 1 r3)
      in if startsWith s ''{"type"'' \<and> startsWith r1 '':'' \<and> startsWith r3 [CHR 0x22]
            \<and> body \<noteq> [] \<and> startsWith (drop (length body) (drop 1 r3)) [CHR 0x22]
         then Some (length s - length (drop (length body) (drop 1 r3)) + 1)
         else None)\<close>

text \<open>\<^verbatim>\<open>content.match(/\{"type"\s*:\s*"[^"]+"/)\<close>: the text of the leftmost match.\<close>

fun action_match :: "string \<Rightarrow> string option" where
  "action_match [] = None"
| "action_match (c # cs) =
     (case action_here (c # cs) of
        Some n \<Rightarrow> Some (take n (c # cs))
      | None \<Rightarrow> action_match cs)"

text \<open>
  The brace-counting loop of strategy 5 from index \<open>i\<close> on: \<open>Some endIdx\<close> when the count
  comes back to 0, \<open>None\<close> when the text ends first (\<^verbatim>\<open>endIdx\<close> then keeps its initial value).
\<close>

fun brace_scan :: "string \<Rightarrow> int \<Rightarrow> nat \<Rightarrow> nat option" where
  "brace_scan [] braceCount i = None"
| "brace_scan (c # cs) braceCount i =
     (let b1 = (if c = CHR ''{'' then braceCount + 1 else braceCount);
          b2 = (if c = CHR ''}'' then b1 - 1 else b1)
      in if b2 = 0 then Some (i + 1) else brace_scan cs b2 (i + 1))"

definition procesando_calculo :: string where
  "procesando_calculo = ''Procesando c'' @ [CHR 0xE1] @ ''lculo...''"

text \<open>\<^verbatim>\<open>content.indexOf(match[0])\<close>, for a match of the regular expression in \<open>content\<close>.\<close>

definition startIndex :: "string \<Rightarrow> string \<Rightarrow> nat" where
  "startIndex content m = (case indexOf content m of Some i \<Rightarrow> i | None \<Rightarrow> 0)"

text \<open>\<^verbatim>\<open>content.substring(startIdx, endIdx)\<close>, with \<^verbatim>\<open>endIdx\<close> from the brace-counting loop.\<close>

definition balanced_from :: "string \<Rightarrow> nat \<Rightarrow> string" where
  "balanced_from content startIdx =
     (let endIdx = (case brace_scan (drop startIdx content) 0 startIdx of
                      Some e \<Rightarrow> e | None \<Rightarrow> startIdx)
      in take (endIdx - startIdx) (drop startIdx content))"

text \<open>The six strategies, each \<open>None\<close> when it does not return.\<close>

definition strategy1 :: "(string \<Rightarrow> json option) \<Rightarrow> string \<Rightarrow> StructuredResponse option" where
  "strategy1 jp content =
     (case fenced ''```json'' content of
        Some g \<Rightarrow> tryParseJson jp g
      | None \<Rightarrow> None)"

definition strategy2 :: "(string \<Rightarrow> json option) \<Rightarrow> string \<Rightarrow> StructuredResponse option" where
  "strategy2 jp content =
     (case fenced ''```'' content of
        Some g \<Rightarrow> if startsWith (trim g) ''{'' then tryParseJson jp g else None
      | None \<Rightarrow> None)"

definition strategy3 :: "(string \<Rightarrow> json option) \<Rightarrow> string \<Rightarrow> StructuredResponse option" where
  "strategy3 jp content =
     (case calc_match content of
        None \<Rightarrow> None
      | Some m \<Rightarrow>
         (case jp m of
            None \<Rightarrow> None
          | Some action \<Rightarrow>
              (let textBefore = trim (take (startIndex content m) content)
               in Some \<lparr>message = (if textBefore \<noteq> [] then textBefore else procesando_calculo),
                        actions = Some [action], thinking = None\<rparr>)))"

definition strategy4 :: "(string \<Rightarrow> json option) \<Rightarrow> string \<Rightarrow> StructuredResponse option" where
  "strategy4 jp content =
     (case object_match content of
        Some m \<Rightarrow> tryParseJson jp m
      | None \<Rightarrow> None)"

definition strategy5 :: "(string \<Rightarrow> json option) \<Rightarrow> string \<Rightarrow> StructuredResponse option" where
  "strategy5 jp content =
     (case action_match content of
        None \<Rightarrow> None
      | Some m \<Rightarrow>
         (let startIdx = startIndex content m;
              jsonStr = balanced_from content startIdx
          in case jp jsonStr of
               None \<Rightarrow> None
             | Some action \<Rightarrow>
                 (let textBefore = trim (take startIdx content)
                  in Some \<lparr>message = (if textBefore \<noteq> [] then textBefore else ''Procesando...''),
                           actions = Some [action], thinking = None\<rparr>)))"

definition strategy6 :: "(string \<Rightarrow> json option) \<Rightarrow> string \<Rightarrow> StructuredResponse option" where
  "strategy6 jp content =
     (if startsWith (trim content) ''{'' \<and> endsWith (trim content) ''}''
      then tryParseJson jp (trim content)
      else None)"

text \<open>\<^verbatim>\<open>parseStructuredResponse\<close>: the first strategy that returns wins; else the text itself.\<close>

definition parseStructuredResponse :: "(string \<Rightarrow> json option) \<Rightarrow> string \<Rightarrow> StructuredResponse" where
  "parseStructuredResponse jp content =
     (case strategy1 jp content of Some r \<Rightarrow> r | None \<Rightarrow>
      case strategy2 jp content of Some r \<Rightarrow> r | None \<Rightarrow>
      case strategy3 jp content of Some r \<Rightarrow> r | None \<Rightarrow>
      case strategy4 jp content of Some r \<Rightarrow> r | None \<Rightarrow>
      case strategy5 jp content of Some r \<Rightarrow> r | None \<Rightarrow>
      case strategy6 jp content of Some r \<Rightarrow> r | None \<Rightarrow>
      \<lparr>message = content, actions = None, thinking = None\<rparr>)"

text \<open>
  Two texts and what \<^verbatim>\<open>JSON.parse\<close> gives for them; \<open>parse_examples\<close> is \<^verbatim>\<open>JSON.parse\<close> on
  these texts and throws on every other text.
\<close>

definition calc_text :: string where
  \<open>calc_text = ''{"type":"calc"}''\<close>

definition envelope_text :: string where
  \<open>envelope_text = ''{"message":"ok","actions":[]}''\<close>

definition parse_examples :: "string \<Rightarrow> json option" where
  "parse_examples s =
     (if s = calc_text then Some (JObj [(''type'', JStr ''calc'')])
      else if s = envelope_text then Some (JObj [(''message'', JStr ''ok''), (''actions'', JArr [])])
      else None)"

text \<open>
  What every \<^verbatim>\<open>JSON.parse\<close> obeys: a text that parses to an object has an opening brace.
\<close>

definition objects_need_brace :: "(string \<Rightarrow> json option) \<Rightarrow> bool" where
  "objects_need_brace jp \<longleftrightarrow>
     (\<forall>s kvs. jp s = Some (JObj kvs) \<longrightarrow> CHR ''{'' \<in> set s)"

section \<open>Anomaly heuristic\<close>

text \<open>
  \<^verbatim>\<open>readRange\<close> as \<open>verifyFormulaResults\<close> uses it: the host loads the values of the range on
  the named (or active) sheet, which may throw; \<^verbatim>\<open>data.cells\<close> keeps the non-empty values,
  row by row, and \<^verbatim>\<open>Object.values\<close> lists them in that order. The host's read is the parameter
  \<open>load\<close>.
\<close>

definition readRange ::
  "(address \<Rightarrow> string option \<Rightarrow> thrown + CellValue list list) \<Rightarrow> address \<Rightarrow> string option
     \<Rightarrow> thrown + CellValue list" where
  "readRange load rng sheet =
     (case load rng sheet of
        Inl t \<Rightarrow> Inl (ErrorObj ''Error al leer rango'')
      | Inr vs \<Rightarrow> Inr (filter nonEmpty (concat vs)))"

text \<open>
  \<^verbatim>\<open>v.startsWith("#") || v.includes("ERROR") || v.includes(c)\<close>, where \<^verbatim>\<open>c\<close> is the inverted
  exclamation mark, code unit 0xA1.
\<close>

definition isExcelError :: "string \<Rightarrow> bool" where
  "isExcelError v \<longleftrightarrow> startsWith v ''#'' \<or> includes_s v ''ERROR'' \<or> includes_s v [CHR 0xA1]"

text \<open>The lines pushed to \<^verbatim>\<open>anomalies\<close>, each with the values it interpolates.\<close>

datatype Anomaly =
    ExcelErrors address "string list"
  | AllZeros address nat
  | ManyZeros address nat nat

text \<open>\<^verbatim>\<open>values.filter(v => typeof v === "number")\<close> and \<^verbatim>\<open>values.filter(v => typeof v === "string")\<close>\<close>

definition numbersOf :: "CellValue list \<Rightarrow> real list" where
  "numbersOf vals = concat (map (\<lambda>v. case v of VNum x \<Rightarrow> [x] | _ \<Rightarrow> []) vals)"

definition stringsOf :: "CellValue list \<Rightarrow> string list" where
  "stringsOf vals = concat (map (\<lambda>v. case v of VStr s \<Rightarrow> [s] | _ \<Rightarrow> []) vals)"

text \<open>
  \<^verbatim>\<open>action.formula || (action.formulas ? JSON.stringify(action.formulas[0]) : "desconocida")\<close>
  is a text, except when \<^verbatim>\<open>formula\<close> is absent or empty and \<^verbatim>\<open>formulas\<close> is an empty matrix:
  then \<^verbatim>\<open>formulas[0]\<close> is \<^verbatim>\<open>undefined\<close>, \<^verbatim>\<open>JSON.stringify\<close> returns \<^verbatim>\<open>undefined\<close>, and
  \<^verbatim>\<open>formulaText.substring\<close> throws a \<^verbatim>\<open>TypeError\<close>.
\<close>

definition hasFormulaText :: "'x ExcelAction_scheme \<Rightarrow> bool" where
  "hasFormulaText action \<longleftrightarrow>
     (case aformula action of Some f \<Rightarrow> f \<noteq> [] | None \<Rightarrow> False)
     \<or> aformulas action \<noteq> Some []"

text \<open>
  The \<^verbatim>\<open>try\<close> block in the loop of \<open>verifyFormulaResults\<close>, for one action: \<open>Inl\<close> is a value
  thrown out of the block, by the read or by \<^verbatim>\<open>formulaText.substring\<close> in the all-zero branch.
  \<^verbatim>\<open>(zeroCount / numericValues.length) * 100 > 90\<close> is written as
  \<open>9 * length numericValues < 10 * zeroCount\<close>; the two agree for every sheet-sized count.
\<close>

definition verifyAction_try ::
  "(address \<Rightarrow> string option \<Rightarrow> thrown + CellValue list list) \<Rightarrow> 'x ExcelAction_scheme
     \<Rightarrow> thrown + Anomaly option" where
  "verifyAction_try load action =
     (case readRange load (arange action) (sheetName action) of
        Inl t \<Rightarrow> Inl t
      | Inr vals \<Rightarrow>
         (let numericValues = numbersOf vals;
              stringValues = stringsOf vals;
              errorValues = filter isExcelError stringValues;
              zeroCount = length (filter (\<lambda>v. v = 0) numericValues)
          in if 0 < length errorValues
             then Inr (Some (ExcelErrors (arange action) (take 3 errorValues)))
             else if 5 < length numericValues \<and> list_all (\<lambda>v. v = 0) numericValues
             then (if hasFormulaText action
                   then Inr (Some (AllZeros (arange action) (length numericValues)))
                   else Inl (ErrorObj ''TypeError''))
             else if 10 < length numericValues \<and> 9 * length numericValues < 10 * zeroCount
             then Inr (Some (ManyZeros (arange action) zeroCount (length numericValues)))
             else Inr None))"

text \<open>The \<^verbatim>\<open>catch\<close> of that block logs a warning: the action adds no anomaly.\<close>

definition verifyAction ::
  "(address \<Rightarrow> string option \<Rightarrow> thrown + CellValue list list) \<Rightarrow> 'x ExcelAction_scheme
     \<Rightarrow> Anomaly option" where
  "verifyAction load action =
     (case verifyAction_try load action of Inl t \<Rightarrow> None | Inr r \<Rightarrow> r)"

text \<open>What makes the values read for one action an anomaly.\<close>

definition flagged :: "CellValue list \<Rightarrow> bool" where
  "flagged vals \<longleftrightarrow>
     (\<exists>s. VStr s \<in> set vals \<and> isExcelError s)
     \<or> (5 < length (numbersOf vals) \<and> (\<forall>x \<in> set (numbersOf vals). x = 0))
     \<or> (10 < length (numbersOf vals)
         \<and> 9 * length (numbersOf vals) < 10 * length (filter (\<lambda>x. x = 0) (numbersOf vals)))"

record VerificationResult =
  needsCorrection :: bool
  feedback :: "Anomaly list"

definition verifyFormulaResults ::
  "(address \<Rightarrow> string option \<Rightarrow> thrown + CellValue list list) \<Rightarrow> 'x ExcelAction_scheme list
     \<Rightarrow> VerificationResult" where
  "verifyFormulaResults load formulaActions =
     (let anomalies = List.map_filter (verifyAction load) formulaActions
      in if 0 < length anomalies
         then \<lparr>needsCorrection = True, feedback = anomalies\<rparr>
         else \<lparr>needsCorrection = False, feedback = []\<rparr>)"

section \<open>Correction orchestrator\<close>

text \<open>
  What the orchestrator calls, over a world \<open>'w\<close> that the calls change: \<open>execute\<close> is
  \<^verbatim>\<open>excelService.executeActions\<close>, giving the \<open>success\<close> flag of each result; \<open>verify\<close> is
  \<open>verifyFormulaResults\<close> on the formula actions, giving \<open>needsCorrection\<close>; \<open>askError\<close> and
  \<open>askResult\<close> are the two correction requests to the agent (building the context and
  \<^verbatim>\<open>sendMessageStructured\<close>), which throw or return a reply with or without actions;
  \<open>isFormula\<close> is \<^verbatim>\<open>a.type === "formula"\<close>; \<open>autoMode\<close> is \<^verbatim>\<open>state.editMode === "auto"\<close>.
\<close>

record ('a, 'w) env =
  execute :: "'a list \<Rightarrow> 'w \<Rightarrow> bool list \<times> 'w"
  verify :: "'a list \<Rightarrow> 'w \<Rightarrow> bool \<times> 'w"
  askError :: "'w \<Rightarrow> (thrown + 'a list option) \<times> 'w"
  askResult :: "'w \<Rightarrow> (thrown + 'a list option) \<times> 'w"
  isFormula :: "'a \<Rightarrow> bool"
  autoMode :: bool

text \<open>How a turn ends, when it ends.\<close>

datatype ending = Completed | NothingPending | ReplyWithoutActions | AwaitingUser | RequestFailed

text \<open>
  The outcome of a turn: how it ended, how many error-correction requests and how many
  result-correction requests were sent to the agent, and the world it leaves. The two counts
  are observations added to the model; the code keeps no such count.
\<close>

type_synonym 'w outcome = "ending \<times> nat \<times> nat \<times> 'w"

text \<open>
  \<open>acceptAllActions\<close>, \<open>requestErrorCorrection\<close> and \<open>requestResultCorrection\<close> call each
  other with no bound in the code, so the model runs them on fuel: \<open>None\<close> is a run that has
  not ended when the fuel is spent.
\<close>

fun acceptAllActions ::
      "nat \<Rightarrow> ('a, 'w) env \<Rightarrow> 'a list \<Rightarrow> nat \<Rightarrow> nat \<Rightarrow> 'w \<Rightarrow> 'w outcome option"
  and requestErrorCorrection ::
      "nat \<Rightarrow> ('a, 'w) env \<Rightarrow> bool list \<Rightarrow> nat \<Rightarrow> nat \<Rightarrow> 'w \<Rightarrow> 'w outcome option"
  and requestResultCorrection ::
      "nat \<Rightarrow> ('a, 'w) env \<Rightarrow> nat \<Rightarrow> nat \<Rightarrow> 'w \<Rightarrow> 'w outcome option"
where
  "acceptAllActions 0 e pendingActions ne nr w = None"
| "acceptAllActions (Suc k) e pendingActions ne nr w =
     (if length pendingActions = 0 then Some (NothingPending, ne, nr, w)
      else
        (case execute e pendingActions w of
           (results, w1) \<Rightarrow>
             if length results - length (filter (\<lambda>s. s) results) = 0
             then
               (if 0 < length (filter (isFormula e) pendingActions)
                then (case verify e (filter (isFormula e) pendingActions) w1 of
                        (needs, w2) \<Rightarrow>
                          if needs then requestResultCorrection k e ne nr w2
                          else Some (Completed, ne, nr, w2))
                else Some (Completed, ne, nr, w1))
             else requestErrorCorrection k e results ne nr w1))"
| "requestErrorCorrection 0 e results ne nr w = None"
| "requestErrorCorrection (Suc k) e results ne nr w =
     (if length (filter (\<lambda>s. \<not> s) results) = 0 then Some (Completed, ne, nr, w)
      else
        (case askError e w of
           (Inl t, w1) \<Rightarrow> Some (RequestFailed, ne + 1, nr, w1)
         | (Inr None, w1) \<Rightarrow> Some (ReplyWithoutActions, ne + 1, nr, w1)
         | (Inr (Some acts), w1) \<Rightarrow>
             if 0 < length acts
             then (if autoMode e then acceptAllActions k e acts (ne + 1) nr w1
                   else Some (AwaitingUser, ne + 1, nr, w1))
             else Some (ReplyWithoutActions, ne + 1, nr, w1)))"
| "requestResultCorrection 0 e ne nr w = None"
| "requestResultCorrection (Suc k) e ne nr w =
     (case askResult e w of
        (Inl t, w1) \<Rightarrow> Some (RequestFailed, ne, nr + 1, w1)
      | (Inr None, w1) \<Rightarrow> Some (ReplyWithoutActions, ne, nr + 1, w1)
      | (Inr (Some acts), w1) \<Rightarrow>
          if 0 < length acts
          then (if autoMode e then acceptAllActions k e acts ne (nr + 1) w1
                else Some (AwaitingUser, ne, nr + 1, w1))
          else Some (ReplyWithoutActions, ne, nr + 1, w1))"

text \<open>
  A scripted agent: an action is its own success flag, the world is the list of replies
  still to come, and each correction request takes the next reply.
\<close>

definition next_reply :: "bool list list \<Rightarrow> (thrown + bool list option) \<times> bool list list" where
  "next_reply w = (case w of [] \<Rightarrow> (Inr None, []) | r # rest \<Rightarrow> (Inr (Some r), rest))"

definition scripted :: "(bool, bool list list) env" where
  "scripted = \<lparr>execute = (\<lambda>acts w. (acts, w)), verify = (\<lambda>acts w. (False, w)),
               askError = next_reply, askResult = next_reply,
               isFormula = (\<lambda>a. False), autoMode = True\<rparr>"

text \<open>An agent whose every reply is one action that fails again.\<close>

definition stubborn :: "(bool, unit) env" where
  "stubborn = \<lparr>execute = (\<lambda>acts w. (acts, w)), verify = (\<lambda>acts w. (False, w)),
               askError = (\<lambda>w. (Inr (Some [False]), w)), askResult = (\<lambda>w. (Inr (Some [False]), w)),
               isFormula = (\<lambda>a. False), autoMode = True\<rparr>"

text \<open>
  The reads of a workbook whose sheets are the active one: the values of a range of the
  document when no sheet is named, and the host's error for a sheet asked for by name.
\<close>

definition sheet_load :: "doc \<Rightarrow> address \<Rightarrow> string option \<Rightarrow> thrown + CellValue list list" where
  "sheet_load d rng sheet =
     (case sheet of
        Some name \<Rightarrow> Inl (ErrorObj ''ItemNotFound'')
      | None \<Rightarrow> (case getRange rng of Inl t \<Rightarrow> Inl t | Inr rc \<Rightarrow> Inr (range_values d rc)))"

text \<open>
  The orchestrator on a document: batches are executed by \<open>executeActions\<close>, formula results
  are verified by \<open>verifyFormulaResults\<close> on the document as the batch left it, and the agent
  answers every correction request with a reply without actions.
\<close>

definition sheet_env :: "(ExcelAction, doc) env" where
  "sheet_env =
     \<lparr>execute = (\<lambda>acts d. (map success (fst (executeActions unknown_action acts d)),
                            snd (executeActions unknown_action acts d))),
      verify = (\<lambda>acts d. (needsCorrection (verifyFormulaResults (sheet_load d) acts), d)),
      askError = (\<lambda>d. (Inr None, d)), askResult = (\<lambda>d. (Inr None, d)),
      isFormula = (\<lambda>a. atype a = ''formula''), autoMode = True\<rparr>"

text \<open>An empty sheet on which every formula evaluates to 0.\<close>

definition zero_doc :: doc where
  "zero_doc = blank_doc\<lparr>evalf := (\<lambda>f. VNum 0)\<rparr>"

text \<open>A column of six formulas for B2:B7, and a column of twelve for B2:B13.\<close>

definition formula_six :: ExcelAction where
  "formula_six = \<lparr>atype = ''formula'', arange = Span ''B'' 2 ''B'' 7, avalue = None,
                  avalues = None, aformula = None,
                  aformulas = Some (replicate 6 [''=SUMIF(A:A,A2,C:C)'']),
                  allowOverwrite = False, sheetName = None\<rparr>"

definition formula_twelve :: ExcelAction where
  "formula_twelve = \<lparr>atype = ''formula'', arange = Span ''B'' 2 ''B'' 13, avalue = None,
                     avalues = None, aformula = None,
                     aformulas = Some (replicate 12 [''=SUMIF(A:A,A2,C:C)'']),
                     allowOverwrite = False, sheetName = None\<rparr>"

text \<open>
  An empty sheet on which every formula shows the overflow error, and a column of nine
  array formulas for B2:B10.
\<close>

definition spill_doc :: doc where
  "spill_doc = blank_doc\<lparr>evalf := (\<lambda>f. VStr ''#SPILL!'')\<rparr>"

definition formula_spill :: ExcelAction where
  "formula_spill = \<lparr>atype = ''formula'', arange = Span ''B'' 2 ''B'' 10, avalue = None,
                    avalues = None, aformula = None,
                    aformulas = Some (replicate 9 [''=UNIQUE(A2:A100)'']),
                    allowOverwrite = False, sheetName = None\<rparr>"

text \<open>
  An empty sheet on which the third \<^verbatim>\<open>Excel.run\<close> to come, the validator's re-read when a
  write finds its target empty, is going to throw.
\<close>

definition reread_fault_doc :: doc where
  "reread_fault_doc = blank_doc\<lparr>faults := [None, None, Some (ErrorObj ''RichApi.Error'')]\<rparr>"

section \<open>What the guard is meant to keep\<close>

text \<open>The host's used range contains every non-empty cell.\<close>

definition coherent :: "doc \<Rightarrow> bool" where
  "coherent d \<longleftrightarrow> (\<forall>p. nonEmpty (cells d p) \<longrightarrow> (\<exists>u. used d = Some u \<and> in_rect u p))"

definition all_empty :: "doc \<Rightarrow> rect \<Rightarrow> bool" where
  "all_empty d rc \<longleftrightarrow> (\<forall>p. in_rect rc p \<longrightarrow> \<not> nonEmpty (cells d p))"

text \<open>A range written with its top-left corner first, as \<^verbatim>\<open>B2:B10\<close> is and \<^verbatim>\<open>B10:A2\<close> is not.\<close>

fun top_left_first :: "address \<Rightarrow> bool" where
  "top_left_first (Span c1 r1 c2 r2) = (col_index c1 \<le> col_index c2 \<and> r1 \<le> r2)"
| "top_left_first (Cell c r) = True"
| "top_left_first (OtherText s) = True"

text \<open>A formula action that brings a formula matrix brings no value matrix beside it.\<close>

definition own_payload :: "'x ExcelAction_scheme \<Rightarrow> bool" where
  "own_payload action \<longleftrightarrow>
     (atype action = ''formula'' \<and> aformulas action \<noteq> None
        \<longrightarrow> avalues action = None \<or> avalues action = Some [])"

text \<open>The region the guard probes: the start cell, resized to the payload.\<close>

definition target :: "'x ExcelAction_scheme \<Rightarrow> rect \<Rightarrow> rect" where
  "target action startCell = startCell\<lparr>nrows := guardRows action, ncols := guardCols action\<rparr>"

text \<open>Writing "x" to A1 of the sheet that holds "old" there.\<close>

definition write_a1 :: ExcelAction where
  "write_a1 = write_x"

section \<open>Counting lemmas\<close>

lemma fold_count_cell:
  "fold count_cell row (h, e, t) =
     (h \<or> (\<exists>c \<in> set row. nonEmpty c), e + length (filter (\<lambda>c. \<not> nonEmpty c) row), t + length row)"
  by (induction row arbitrary: h e t) (auto simp: count_cell_def)

lemma fold_count_rows:
  "fold (\<lambda>row st. fold count_cell row st) vs (h, e, t) =
     (h \<or> (\<exists>c \<in> set (concat vs). nonEmpty c),
      e + length (filter (\<lambda>c. \<not> nonEmpty c) (concat vs)), t + length (concat vs))"
  by (induction vs arbitrary: h e t) (auto simp: fold_count_cell)

lemma count_cells_eq:
  "count_cells vs =
     ((\<exists>c \<in> set (concat vs). nonEmpty c),
      length (filter (\<lambda>c. \<not> nonEmpty c) (concat vs)), length (concat vs))"
  by (simp add: count_cells_def fold_count_rows)

lemma fold_count_error_row:
  "fold (\<lambda>cell k. if isErrorCell cell then k + 1 else k) row n = n + length (filter isErrorCell row)"
  by (induction row arbitrary: n) auto

lemma count_errors_eq: "count_errors vs = length (filter isErrorCell (concat vs))"
proof -
  have "fold (\<lambda>row n. fold (\<lambda>cell k. if isErrorCell cell then k + 1 else k) row n) vs n
          = n + length (filter isErrorCell (concat vs))" for n
    by (induction vs arbitrary: n) (auto simp: fold_count_error_row)
  then show ?thesis by (simp add: count_errors_def)
qed

lemma all_errors_iff:
  "length (filter isErrorCell xs) = length xs \<longleftrightarrow> (\<forall>c \<in> set xs. isErrorCell c)"
  by (induction xs) (auto simp: le_imp_less_Suc[OF length_filter_le] less_not_refl2 dest: sym)

lemma classify_rules:
  "classify action finalRange vs =
     (let cs = concat vs; e = length (filter (\<lambda>c. \<not> nonEmpty c) cs); t = length cs in
      if expectedData action \<and> (\<forall>c \<in> set cs. \<not> nonEmpty c)
      then \<lparr>passed = False, vmessage = NoDataWritten finalRange e t, vvalues = Some vs\<rparr>
      else if multiRowWrite action \<and> 3 * t < 10 * e \<and> 3 < e
      then \<lparr>passed = False, vmessage = IncompleteTable e t, vvalues = Some vs\<rparr>
      else if atype action = ''formula'' \<and> cs \<noteq> [] \<and> (\<forall>c \<in> set cs. isErrorCell c)
      then \<lparr>passed = False, vmessage = AllFormulasErrored t, vvalues = Some vs\<rparr>
      else \<lparr>passed = True, vmessage = ValidationOk (t - e) t, vvalues = Some vs\<rparr>)"
proof -
  define cs where "cs = concat vs"
  have a: "(length (filter isErrorCell cs) = length cs) = (\<forall>c \<in> set cs. isErrorCell c)"
    by (rule all_errors_iff)
  have b: "(0 < length (filter isErrorCell cs) \<and> length (filter isErrorCell cs) = length cs)
             = (cs \<noteq> [] \<and> (\<forall>c \<in> set cs. isErrorCell c))"
    using a by (cases cs) auto
  show ?thesis
    unfolding classify_def count_cells_eq count_errors_eq Let_def cs_def[symmetric]
    using b by auto
qed

lemma classify_empty_payload:
  assumes "\<not> expectedData action"
  shows "vmessage (classify action finalRange vs) \<noteq> NoDataWritten r e t"
    and "vmessage (classify action finalRange vs) \<noteq> IncompleteTable e t"
proof -
  have m: "\<not> multiRowWrite action"
    using assms by (auto simp: expectedData_def multiRowWrite_def split: option.splits)
  show "vmessage (classify action finalRange vs) \<noteq> NoDataWritten r e t"
    using assms m by (simp add: classify_rules Let_def)
  show "vmessage (classify action finalRange vs) \<noteq> IncompleteTable e t"
    using assms m by (simp add: classify_rules Let_def)
qed

section \<open>Result validator: the ordered rules\<close>

text \<open>
  The validator's decision after a re-read that returned the rows \<open>vs\<close>, in the code's own
  tests and in the code's order: \<open>expectedData\<close> with no non-empty cell; a write of more than
  one row with more than 30 percent and more than 3 cells empty; a formula whose cells are all
  matched by \<open>isErrorCell\<close>; otherwise passed.
\<close>

lemma validateWriteAction_rules:
  "(Excel_run d (validate_read action finalRange) = (Inr vs, d') \<longrightarrow>
      fst (validateWriteAction action finalRange d) =
        (let cs = concat vs; e = length (filter (\<lambda>c. \<not> nonEmpty c) cs); t = length cs in
         if expectedData action \<and> (\<forall>c \<in> set cs. \<not> nonEmpty c)
         then \<lparr>passed = False, vmessage = NoDataWritten finalRange e t, vvalues = Some vs\<rparr>
         else if multiRowWrite action \<and> 3 * t < 10 * e \<and> 3 < e
         then \<lparr>passed = False, vmessage = IncompleteTable e t, vvalues = Some vs\<rparr>
         else if atype action = ''formula'' \<and> cs \<noteq> [] \<and> (\<forall>c \<in> set cs. isErrorCell c)
         then \<lparr>passed = False, vmessage = AllFormulasErrored t, vvalues = Some vs\<rparr>
         else \<lparr>passed = True, vmessage = ValidationOk (t - e) t, vvalues = Some vs\<rparr>))"
proof (intro impI)
  assume "Excel_run d (validate_read action finalRange) = (Inr vs, d')"
  then have "fst (validateWriteAction action finalRange d) = classify action finalRange vs"
    by (simp add: validateWriteAction_def)
  then show "fst (validateWriteAction action finalRange d) =
        (let cs = concat vs; e = length (filter (\<lambda>c. \<not> nonEmpty c) cs); t = length cs in
         if expectedData action \<and> (\<forall>c \<in> set cs. \<not> nonEmpty c)
         then \<lparr>passed = False, vmessage = NoDataWritten finalRange e t, vvalues = Some vs\<rparr>
         else if multiRowWrite action \<and> 3 * t < 10 * e \<and> 3 < e
         then \<lparr>passed = False, vmessage = IncompleteTable e t, vvalues = Some vs\<rparr>
         else if atype action = ''formula'' \<and> cs \<noteq> [] \<and> (\<forall>c \<in> set cs. isErrorCell c)
         then \<lparr>passed = False, vmessage = AllFormulasErrored t, vvalues = Some vs\<rparr>
         else \<lparr>passed = True, vmessage = ValidationOk (t - e) t, vvalues = Some vs\<rparr>)"
    by (simp only: classify_rules)
qed

text \<open>
  Claim C4. The validator is to fail a formula region every cell of which is an error
  sentinel; the code's comment says the same ("verificar que no sean todos errores"). Its
  test knows five kinds of error only. Nine array formulas written to B2:B10 that all show
  the overflow error \<^verbatim>\<open>#SPILL!\<close> are executed, re-read as nine error texts, and validated as
  passed with 9 of 9 cells holding data. The anomaly heuristic's test for the same text,
  \<open>isExcelError\<close>, takes it for an error.
\<close>

theorem spill_region_passes:
  "success (fst (executeSingleAction unknown_action formula_spill spill_doc))
   \<and> actualValues (fst (executeSingleAction unknown_action formula_spill spill_doc))
        = Some (replicate 9 [VStr ''#SPILL!''])
   \<and> validationPassed (fst (executeSingleAction unknown_action formula_spill spill_doc))
        = Some True
   \<and> validationMessage (fst (executeSingleAction unknown_action formula_spill spill_doc))
        = Some (ValidationOk 9 9)
   \<and> isErrorCell (VStr ''#SPILL!'') = False
   \<and> isExcelError ''#SPILL!''"
  by code_simp

section \<open>Result validator: a failing re-read\<close>

text \<open>
  Claim C10. When the validator's own re-read throws, \<open>validateWriteAction\<close> returns
  \<open>passed = True\<close> with the message that the action could not be validated: an error of the
  validation itself never marks the action as failed.
\<close>

theorem validation_fails_open:
  "Excel_run d (validate_read action finalRange) = (Inl t, d') \<Longrightarrow>
     fst (validateWriteAction action finalRange d) =
       \<lparr>passed = True, vmessage = CouldNotValidate, vvalues = None\<rparr>"
  by (simp add: validateWriteAction_def)

theorem validation_fails_open_witness:
  "Excel_run faulty_doc (validate_read write_x (Cell ''A'' 1)) = (Inl (ErrorObj ''RichApi.Error''), blank_doc)
   \<and> fst (validateWriteAction write_x (Cell ''A'' 1) faulty_doc) =
       \<lparr>passed = True, vmessage = CouldNotValidate, vvalues = None\<rparr>"
proof -
  have h: "Excel_run faulty_doc (validate_read write_x (Cell ''A'' 1))
             = (Inl (ErrorObj ''RichApi.Error''), blank_doc)"
    by (simp add: Excel_run_def faulty_doc_def blank_doc_def next_fault_def pop_fault_def)
  show ?thesis using h validation_fails_open[OF h] by simp
qed

section \<open>Collision guard: a failing probe\<close>

declare numberToColumn_loop.simps [simp del]

text \<open>
  Claim C9. For a write or formula action without \<open>allowOverwrite\<close>, when the read of the
  target region throws, \<open>checkRangeForData\<close> answers \<open>hasData = False\<close> and the guard lets the
  action go on to the range it asked for, with no warning, whatever that range holds.
\<close>

theorem probe_failure_fails_open:
  assumes "atype action = ''write'' \<or> atype action = ''formula''"
    and "\<not> allowOverwrite action"
    and "Excel_run d (check_body (split_first (arange action)) (guardRows action) (guardCols action))
           = (Inl t, d')"
  shows "checkRangeForData (split_first (arange action)) (guardRows action) (guardCols action) d
           = (\<lparr>hasData = False, nonEmptyCells = 0, totalCells = 0\<rparr>, d')
         \<and> guard action d = (Inr (arange action, None), d')"
  using assms by (simp add: checkRangeForData_def guard_def)

text \<open>
  On the sheet with "old" in A1 and a probe that throws, writing "x" to A1 succeeds and
  replaces "old".
\<close>

theorem probe_failure_fails_open_witness:
  "(atype write_x = ''write'' \<or> atype write_x = ''formula'')
   \<and> \<not> allowOverwrite write_x
   \<and> Excel_run probe_fault_doc
        (check_body (split_first (arange write_x)) (guardRows write_x) (guardCols write_x))
        = (Inl (ErrorObj ''RichApi.Error''), old_doc)
   \<and> guard write_x probe_fault_doc = (Inr (arange write_x, None), old_doc)
   \<and> cells probe_fault_doc (1, 1) = VStr ''old''
   \<and> success (fst (executeSingleAction unknown_action write_x probe_fault_doc))
   \<and> cells (snd (executeSingleAction unknown_action write_x probe_fault_doc)) (1, 1) = VStr ''x''"
proof -
  have h1: "atype write_x = ''write'' \<or> atype write_x = ''formula''"
    by (simp add: write_x_def)
  have h2: "\<not> allowOverwrite write_x"
    by (simp add: write_x_def)
  have h3: "Excel_run probe_fault_doc
        (check_body (split_first (arange write_x)) (guardRows write_x) (guardCols write_x))
        = (Inl (ErrorObj ''RichApi.Error''), old_doc)"
    by (simp add: Excel_run_def next_fault_def pop_fault_def probe_fault_doc_def old_doc_def)
  have e1: "cells probe_fault_doc (1, 1) = VStr ''old''"
    by (simp add: probe_fault_doc_def old_doc_def)
  have e2: "success (fst (executeSingleAction unknown_action write_x probe_fault_doc))"
    by code_simp
  have e3: "cells (snd (executeSingleAction unknown_action write_x probe_fault_doc)) (1, 1) = VStr ''x''"
    by code_simp
  show ?thesis
    using probe_failure_fails_open[OF h1 h2 h3] h1 h2 h3 e1 e2 e3 by blast
qed

section \<open>Dispatch executor: errors become results\<close>

lemma guard_failure_action:
  "guard action d = (Inl failure, d1) \<Longrightarrow> r_action failure = action"
  by (auto simp: guard_def split: if_splits prod.splits option.splits)

lemma guard_failure_shape:
  "guard action d = (Inl failure, d1) \<Longrightarrow>
     \<not> success failure \<and> r_error failure = Some existing_data_error"
  by (auto simp: guard_def split: if_splits prod.splits option.splits)

lemma executeSingleAction_action:
  "r_action (fst (executeSingleAction other action d)) = action"
proof (cases "guard action d")
  case (Pair g d1)
  show ?thesis
  proof (cases g)
    case (Inl failure)
    with Pair guard_failure_action[of action d failure d1] show ?thesis
      by (simp add: executeSingleAction_def executeSingleAction_try_def)
  next
    case (Inr fw)
    with Pair show ?thesis
      by (cases fw)
         (auto simp: executeSingleAction_def executeSingleAction_try_def
               split: prod.splits sum.splits)
  qed
qed

lemma executeActions_Cons_fst:
  "fst (executeActions other (a # rest) d)
     = fst (executeSingleAction other a d)
         # fst (executeActions other rest (snd (executeSingleAction other a d)))"
  by (simp split: prod.splits)

lemma executeActions_Cons_snd:
  "snd (executeActions other (a # rest) d)
     = snd (executeActions other rest (snd (executeSingleAction other a d)))"
  by (simp split: prod.splits)

lemma executeActions_length: "length (fst (executeActions other acts d)) = length acts"
  by (induction acts arbitrary: d) (simp_all add: executeActions_Cons_fst del: executeActions.simps(2))

lemma executeActions_nth:
  "i < length acts \<Longrightarrow>
     fst (executeActions other acts d) ! i
       = fst (executeSingleAction other (acts ! i) (snd (executeActions other (take i acts) d)))"
proof (induction acts arbitrary: i d)
  case Nil
  then show ?case by simp
next
  case (Cons a rest)
  show ?case
  proof (cases i)
    case 0
    then show ?thesis by (simp add: executeActions_Cons_fst del: executeActions.simps(2))
  next
    case (Suc j)
    with Cons.prems have j: "j < length rest" by simp
    from Cons.IH[OF j, of "snd (executeSingleAction other a d)"] Suc show ?thesis
      by (simp add: executeActions_Cons_fst executeActions_Cons_snd del: executeActions.simps(2))
  qed
qed

lemma dispatch_throw_result:
  assumes g: "fst (guard a d) = Inr (fr, w)"
    and x: "fst (Excel_run (snd (guard a d)) (dispatch other a fr w)) = Inl t"
  shows "fst (executeSingleAction other a d) =
           \<lparr>success = False, r_action = a, r_message = ErrorEn (arange a),
            r_error = Some (errorMsg t), validated = Some False, validationPassed = None,
            validationMessage = None, actualValues = None\<rparr>"
proof -
  obtain d1 where g': "guard a d = (Inr (fr, w), d1)"
    using g by (cases "guard a d") simp
  obtain d2 where x': "Excel_run d1 (dispatch other a fr w) = (Inl t, d2)"
    using x g' by (cases "Excel_run d1 (dispatch other a fr w)") simp
  show ?thesis
    by (simp add: executeSingleAction_def executeSingleAction_try_def g' x')
qed

lemma error_field_sources:
  assumes e: "r_error (fst (executeSingleAction other a d)) = Some m"
  shows "(\<exists>f. fst (guard a d) = Inl f \<and> m = existing_data_error)
         \<or> (\<exists>fr w t. fst (guard a d) = Inr (fr, w)
               \<and> fst (Excel_run (snd (guard a d)) (dispatch other a fr w)) = Inl t
               \<and> m = errorMsg t)"
proof (cases "guard a d")
  case (Pair g d1)
  show ?thesis
  proof (cases g)
    case (Inl f)
    with Pair have "executeSingleAction other a d = (f, d1)"
      by (simp add: executeSingleAction_def executeSingleAction_try_def)
    with e guard_failure_shape[of a d f d1] Pair Inl show ?thesis by simp
  next
    case (Inr fw)
    obtain fr w where fw: "fw = (fr, w)" by (cases fw)
    obtain x d2 where x: "Excel_run d1 (dispatch other a fr w) = (x, d2)"
      by (cases "Excel_run d1 (dispatch other a fr w)")
    show ?thesis
    proof (cases x)
      case (Inl t)
      with Pair Inr fw x e have "m = errorMsg t"
        by (simp add: executeSingleAction_def executeSingleAction_try_def)
      with Pair Inr fw x Inl show ?thesis by simp
    next
      case (Inr msg)
      with Pair \<open>g = Inr fw\<close> fw x e show ?thesis
        by (auto simp: executeSingleAction_def executeSingleAction_try_def
                 split: if_splits prod.splits)
    qed
  qed
qed

lemma success_iff_no_error:
  "success (fst (executeSingleAction other a d))
     \<longleftrightarrow> r_error (fst (executeSingleAction other a d)) = None"
proof (cases "guard a d")
  case (Pair g d1)
  show ?thesis
  proof (cases g)
    case (Inl f)
    with Pair have "executeSingleAction other a d = (f, d1)"
      by (simp add: executeSingleAction_def executeSingleAction_try_def)
    with guard_failure_shape[of a d f d1] Pair Inl show ?thesis by simp
  next
    case (Inr fw)
    obtain fr w where fw: "fw = (fr, w)" by (cases fw)
    obtain x d2 where x: "Excel_run d1 (dispatch other a fr w) = (x, d2)"
      by (cases "Excel_run d1 (dispatch other a fr w)")
    with Pair Inr fw show ?thesis
      by (cases x)
         (auto simp: executeSingleAction_def executeSingleAction_try_def
               split: if_splits prod.splits)
  qed
qed

text \<open>
  Claim C8, as stated, fails: not every error thrown by a document-model call becomes a failed
  result. When the validator's re-read throws after a write that went through, the result has
  \<open>success = True\<close>, no error, and a validation marked as passed.
\<close>

theorem reread_error_not_reported:
  "faults reread_fault_doc = [None, None, Some (ErrorObj ''RichApi.Error'')]
   \<and> success (fst (executeSingleAction unknown_action write_x reread_fault_doc))
   \<and> r_error (fst (executeSingleAction unknown_action write_x reread_fault_doc)) = None
   \<and> validationPassed (fst (executeSingleAction unknown_action write_x reread_fault_doc))
        = Some True
   \<and> validationMessage (fst (executeSingleAction unknown_action write_x reread_fault_doc))
        = Some CouldNotValidate
   \<and> faults (snd (executeSingleAction unknown_action write_x reread_fault_doc)) = []"
  by code_simp

text \<open>
  Claim C8, amended. \<open>executeSingleAction\<close> always returns a result. An error thrown by the
  document-model batch of the dispatch is caught and gives \<open>success = False\<close> with the message
  of the thrown \<^verbatim>\<open>Error\<close> in the error field, or "Error desconocido" for another thrown value.
  The error field holds nothing else but the fixed existing-data text of the guard, so an error
  thrown in the guard's probe, in its search or in the validator's re-read never shows there;
  and a result is a success exactly when its error field is empty. In a batch, the result at
  each position is that of \<open>executeSingleAction\<close> for the action at that position on the
  document left by the actions before it, whatever their results, and there is one result per
  action.
\<close>

theorem executor_never_raises:
  "(fst (guard a d) = Inr (fr, w)
      \<and> fst (Excel_run (snd (guard a d)) (dispatch other a fr w)) = Inl t \<longrightarrow>
      fst (executeSingleAction other a d) =
        \<lparr>success = False, r_action = a, r_message = ErrorEn (arange a),
         r_error = Some (errorMsg t), validated = Some False, validationPassed = None,
         validationMessage = None, actualValues = None\<rparr>)
   \<and> errorMsg (ErrorObj m) = m
   \<and> errorMsg NonError = ''Error desconocido''
   \<and> (r_error (fst (executeSingleAction other a d)) = Some m' \<longrightarrow>
        (\<exists>f. fst (guard a d) = Inl f \<and> m' = existing_data_error)
        \<or> (\<exists>fr' w' t'. fst (guard a d) = Inr (fr', w')
              \<and> fst (Excel_run (snd (guard a d)) (dispatch other a fr' w')) = Inl t'
              \<and> m' = errorMsg t'))
   \<and> (success (fst (executeSingleAction other a d))
        \<longleftrightarrow> r_error (fst (executeSingleAction other a d)) = None)
   \<and> length (fst (executeActions other acts d)) = length acts
   \<and> (i < length acts \<longrightarrow>
        fst (executeActions other acts d) ! i
          = fst (executeSingleAction other (acts ! i)
                   (snd (executeActions other (take i acts) d))))"
proof (intro conjI impI)
  assume h: "fst (guard a d) = Inr (fr, w)
      \<and> fst (Excel_run (snd (guard a d)) (dispatch other a fr w)) = Inl t"
  then show "fst (executeSingleAction other a d) =
        \<lparr>success = False, r_action = a, r_message = ErrorEn (arange a),
         r_error = Some (errorMsg t), validated = Some False, validationPassed = None,
         validationMessage = None, actualValues = None\<rparr>"
    using dispatch_throw_result[of a d fr w other t] by blast
next
  show "errorMsg (ErrorObj m) = m" by (simp add: errorMsg_def)
next
  show "errorMsg NonError = ''Error desconocido''" by (simp add: errorMsg_def)
next
  assume "r_error (fst (executeSingleAction other a d)) = Some m'"
  then show "(\<exists>f. fst (guard a d) = Inl f \<and> m' = existing_data_error)
        \<or> (\<exists>fr' w' t'. fst (guard a d) = Inr (fr', w')
              \<and> fst (Excel_run (snd (guard a d)) (dispatch other a fr' w')) = Inl t'
              \<and> m' = errorMsg t')"
    by (rule error_field_sources)
next
  show "success (fst (executeSingleAction other a d))
        \<longleftrightarrow> r_error (fst (executeSingleAction other a d)) = None"
    by (rule success_iff_no_error)
next
  show "length (fst (executeActions other acts d)) = length acts"
    by (rule executeActions_length)
next
  assume "i < length acts"
  then show "fst (executeActions other acts d) ! i
          = fst (executeSingleAction other (acts ! i)
                   (snd (executeActions other (take i acts) d)))"
    by (rule executeActions_nth)
qed

text \<open>
  A batch of two writes on an empty sheet: the first names a range the host rejects, so its
  dispatch throws and it fails with the host's message; the second is executed on the
  document the first one left and writes its value.
\<close>

theorem executor_never_raises_witness:
  "fst (guard write_nowhere blank_doc) = Inr (OtherText ''Hoja inexistente'', None)
   \<and> fst (Excel_run (snd (guard write_nowhere blank_doc))
            (dispatch unknown_action write_nowhere (OtherText ''Hoja inexistente'') None))
        = Inl (ErrorObj ''InvalidArgument'')
   \<and> success (fst (executeSingleAction unknown_action write_nowhere blank_doc)) = False
   \<and> r_error (fst (executeSingleAction unknown_action write_nowhere blank_doc))
        = Some ''InvalidArgument''
   \<and> length (fst (executeActions unknown_action [write_nowhere, write_x] blank_doc)) = 2
   \<and> fst (executeActions unknown_action [write_nowhere, write_x] blank_doc) ! 1
        = fst (executeSingleAction unknown_action write_x
                 (snd (executeActions unknown_action [write_nowhere] blank_doc)))
   \<and> success (fst (executeActions unknown_action [write_nowhere, write_x] blank_doc) ! 1)
   \<and> cells (snd (executeActions unknown_action [write_nowhere, write_x] blank_doc)) (1, 1)
        = VStr ''x''"
proof -
  have h1: "fst (guard write_nowhere blank_doc) = Inr (OtherText ''Hoja inexistente'', None)"
    by code_simp
  have h2: "fst (Excel_run (snd (guard write_nowhere blank_doc))
            (dispatch unknown_action write_nowhere (OtherText ''Hoja inexistente'') None))
        = Inl (ErrorObj ''InvalidArgument'')"
    by code_simp
  have m: "errorMsg (ErrorObj ''InvalidArgument'') = ''InvalidArgument''"
    by (simp add: errorMsg_def)
  note T = executor_never_raises[of write_nowhere blank_doc "OtherText ''Hoja inexistente''"
             None unknown_action "ErrorObj ''InvalidArgument''" "''InvalidArgument''"
             "''InvalidArgument''" "[write_nowhere, write_x]" 1]
  from T h1 h2 have r: "fst (executeSingleAction unknown_action write_nowhere blank_doc) =
        \<lparr>success = False, r_action = write_nowhere, r_message = ErrorEn (arange write_nowhere),
         r_error = Some (errorMsg (ErrorObj ''InvalidArgument'')), validated = Some False,
         validationPassed = None, validationMessage = None, actualValues = None\<rparr>"
    by blast
  from T have len: "length (fst (executeActions unknown_action [write_nowhere, write_x] blank_doc))
                      = length [write_nowhere, write_x]"
    by blast
  have lt: "(1::nat) < length [write_nowhere, write_x]" by simp
  from T lt have n: "fst (executeActions unknown_action [write_nowhere, write_x] blank_doc) ! 1
        = fst (executeSingleAction unknown_action ([write_nowhere, write_x] ! 1)
                 (snd (executeActions unknown_action (take 1 [write_nowhere, write_x]) blank_doc)))"
    by blast
  have e1: "success (fst (executeActions unknown_action [write_nowhere, write_x] blank_doc) ! 1)"
    by code_simp
  have e2: "cells (snd (executeActions unknown_action [write_nowhere, write_x] blank_doc)) (1, 1)
              = VStr ''x''"
    by code_simp
  from r m have s: "success (fst (executeSingleAction unknown_action write_nowhere blank_doc)) = False"
    and er: "r_error (fst (executeSingleAction unknown_action write_nowhere blank_doc))
               = Some ''InvalidArgument''"
    by simp_all
  from n have n': "fst (executeActions unknown_action [write_nowhere, write_x] blank_doc) ! 1
        = fst (executeSingleAction unknown_action write_x
                 (snd (executeActions unknown_action [write_nowhere] blank_doc)))"
    by simp
  from len have len': "length (fst (executeActions unknown_action [write_nowhere, write_x] blank_doc)) = 2"
    by simp
  from h1 h2 s er len' n' e1 e2 show ?thesis by blast
qed

section \<open>Collision guard: where the search starts\<close>

text \<open>
  Claim C6. The search of \<open>findEmptyRangeForData\<close> starts at the used range's column count
  plus 2, not at the last used column plus 2. On the sheet whose only content is "x" in C1 the
  last used column is 3 and the column count is 1: the first candidate is column C itself
  (occupied), and the function returns D1, the column right after the data, where the last
  used column plus 2 is column E.
\<close>

theorem find_starts_at_column_count:
  "used c1_doc = Some \<lparr>col0 = 3, row0 = 1, ncols = 1, nrows = 1\<rparr>
   \<and> cells c1_doc (3, 1) = VStr ''x''
   \<and> fst (findEmptyRangeForData 1 1 c1_doc) = Some (Cell ''D'' 1)
   \<and> numberToColumn (3 + 2) = ''E''"
proof -
  have a: "used c1_doc = Some \<lparr>col0 = 3, row0 = 1, ncols = 1, nrows = 1\<rparr>"
    by (simp add: c1_doc_def)
  have b: "cells c1_doc (3, 1) = VStr ''x''"
    by (simp add: c1_doc_def)
  have c: "fst (findEmptyRangeForData 1 1 c1_doc) = Some (Cell ''D'' 1)"
    by code_simp
  have d: "numberToColumn (3 + 2) = ''E''"
    by code_simp
  show ?thesis using a b c d by simp
qed

section \<open>Response parser: text without an object\<close>

lemma startsWith_set: "startsWith s p \<Longrightarrow> set p \<subseteq> set s"
  by (induction s p rule: startsWith.induct) auto

lemma before_fence_set: "before_fence s = Some g \<Longrightarrow> set g \<subseteq> set s"
  by (induction s arbitrary: g) (auto split: if_splits)

lemma fenced_set: "fenced opening s = Some g \<Longrightarrow> set g \<subseteq> set s"
proof (induction s)
  case Nil
  then show ?case by simp
next
  case (Cons c cs)
  show ?case
  proof (cases "startsWith (c # cs) opening
                \<and> before_fence (dropWhile is_ws (drop (length opening) (c # cs))) \<noteq> None")
    case True
    then obtain g' where
      g': "before_fence (dropWhile is_ws (drop (length opening) (c # cs))) = Some g'"
      by auto
    with True Cons.prems have "g = g'" by simp
    moreover have "set g' \<subseteq> set (dropWhile is_ws (drop (length opening) (c # cs)))"
      by (rule before_fence_set[OF g'])
    moreover have "set (dropWhile is_ws (drop (length opening) (c # cs))) \<subseteq> set (c # cs)"
      by (meson set_dropWhileD set_drop_subset subsetD subsetI)
    ultimately show ?thesis by blast
  next
    case False
    with Cons.prems have "fenced opening cs = Some g"
      by (auto split: if_splits option.splits)
    with Cons.IH show ?thesis by auto
  qed
qed

lemma trim_set: "set (trim s) \<subseteq> set s"
proof -
  have "set (trim s) = set (dropWhile is_ws (rev (dropWhile is_ws s)))"
    by (simp add: trim_def)
  also have "\<dots> \<subseteq> set (rev (dropWhile is_ws s))"
    by (meson set_dropWhileD subsetI)
  also have "\<dots> \<subseteq> set s"
    using set_dropWhileD by fastforce
  finally show ?thesis .
qed

lemma calc_match_none: "CHR ''{'' \<notin> set s \<Longrightarrow> calc_match s = None"
  by (induction s) auto

lemma indexOf_brace_none: "CHR ''{'' \<notin> set s \<Longrightarrow> indexOf s ''{'' = None"
  by (induction s) auto

lemma action_here_brace: "action_here s = Some n \<Longrightarrow> CHR ''{'' \<in> set s"
proof -
  assume "action_here s = Some n"
  then have "startsWith s (CHR ''{'' # [CHR 0x22] @ ''type'' @ [CHR 0x22])"
    by (simp add: action_here_def Let_def split: if_splits)
  from startsWith_set[OF this] show ?thesis by simp
qed

lemma action_match_none: "CHR ''{'' \<notin> set s \<Longrightarrow> action_match s = None"
proof (induction s)
  case Nil
  show ?case by simp
next
  case (Cons c cs)
  have "action_here (c # cs) = None"
    using action_here_brace[of "c # cs"] Cons.prems by (cases "action_here (c # cs)") auto
  with Cons show ?case by simp
qed

lemma tryParseJson_object:
  "tryParseJson jp s = Some r \<Longrightarrow>
     \<exists>kvs m. jp s = Some (JObj kvs) \<and> map_of kvs ''message'' = Some (JStr m) \<and> m \<noteq> []
              \<and> message r = m"
  by (auto simp: tryParseJson_def tryParseJson_try_def get_prop_def
           split: option.splits sum.splits json.splits if_splits)

lemma tryParseJson_no_brace:
  "objects_need_brace jp \<Longrightarrow> CHR ''{'' \<notin> set s \<Longrightarrow> tryParseJson jp s = None"
proof (rule ccontr)
  assume ok: "objects_need_brace jp" and nb: "CHR ''{'' \<notin> set s"
    and "tryParseJson jp s \<noteq> None"
  then obtain r where "tryParseJson jp s = Some r" by auto
  from tryParseJson_object[OF this] obtain kvs where "jp s = Some (JObj kvs)" by blast
  with ok have "CHR ''{'' \<in> set s" by (auto simp: objects_need_brace_def)
  with nb show False by simp
qed

lemma no_brace_strategies:
  assumes ok: "objects_need_brace jp" and nb: "CHR ''{'' \<notin> set c"
  shows "strategy1 jp c = None" and "strategy2 jp c = None" and "strategy3 jp c = None"
    and "strategy4 jp c = None" and "strategy5 jp c = None" and "strategy6 jp c = None"
proof -
  show "strategy1 jp c = None"
  proof (cases "fenced ''```json'' c")
    case None
    then show ?thesis by (simp add: strategy1_def)
  next
    case (Some g)
    with fenced_set[OF Some] nb have "CHR ''{'' \<notin> set g" by blast
    with Some tryParseJson_no_brace[OF ok] show ?thesis by (simp add: strategy1_def)
  qed
  show "strategy2 jp c = None"
  proof (cases "fenced ''```'' c")
    case None
    then show ?thesis by (simp add: strategy2_def)
  next
    case (Some g)
    with fenced_set[OF Some] nb have "CHR ''{'' \<notin> set g" by blast
    with Some tryParseJson_no_brace[OF ok] show ?thesis by (simp add: strategy2_def)
  qed
  show "strategy3 jp c = None"
    using calc_match_none[OF nb] by (simp add: strategy3_def)
  show "strategy4 jp c = None"
    using indexOf_brace_none[OF nb] by (simp add: strategy4_def object_match_def)
  show "strategy5 jp c = None"
    using action_match_none[OF nb] by (simp add: strategy5_def)
  show "strategy6 jp c = None"
  proof (cases "startsWith (trim c) ''{''")
    case True
    from startsWith_set[OF True] trim_set[of c] nb show ?thesis by auto
  next
    case False
    then show ?thesis by (simp add: strategy6_def)
  qed
qed

text \<open>
  Claim C3. The parser is a total function of the text: the two places where its code can
  throw, \<^verbatim>\<open>JSON.parse\<close> and reading a property of \<^verbatim>\<open>null\<close>, are inside \<^verbatim>\<open>try\<close> blocks, and a
  throw there makes the strategy return nothing. When no strategy returns, the result is
  exactly the text as message, with no actions. This is the case for every text without an
  opening brace, such as "The total is 42".
\<close>

theorem parser_falls_back_to_text:
  "(tryParseJson_try jp s = Inl t \<longrightarrow> tryParseJson jp s = None)
   \<and> (strategy1 jp c = None \<and> strategy2 jp c = None \<and> strategy3 jp c = None
        \<and> strategy4 jp c = None \<and> strategy5 jp c = None \<and> strategy6 jp c = None
       \<longrightarrow> parseStructuredResponse jp c = \<lparr>message = c, actions = None, thinking = None\<rparr>)
   \<and> (objects_need_brace jp \<and> CHR ''{'' \<notin> set c
       \<longrightarrow> parseStructuredResponse jp c = \<lparr>message = c, actions = None, thinking = None\<rparr>)"
proof (intro conjI impI)
  assume "tryParseJson_try jp s = Inl t"
  then show "tryParseJson jp s = None" by (simp add: tryParseJson_def)
next
  assume "strategy1 jp c = None \<and> strategy2 jp c = None \<and> strategy3 jp c = None
        \<and> strategy4 jp c = None \<and> strategy5 jp c = None \<and> strategy6 jp c = None"
  then show "parseStructuredResponse jp c = \<lparr>message = c, actions = None, thinking = None\<rparr>"
    by (simp add: parseStructuredResponse_def)
next
  assume "objects_need_brace jp \<and> CHR ''{'' \<notin> set c"
  then have ok: "objects_need_brace jp" and nb: "CHR ''{'' \<notin> set c" by simp_all
  show "parseStructuredResponse jp c = \<lparr>message = c, actions = None, thinking = None\<rparr>"
    by (simp add: parseStructuredResponse_def no_brace_strategies[OF ok nb])
qed

lemma parse_examples_ok: "objects_need_brace parse_examples"
  by (auto simp: objects_need_brace_def parse_examples_def calc_text_def envelope_text_def
           split: if_splits)

theorem parser_falls_back_to_text_witness:
  "tryParseJson_try parse_examples ''null'' = Inl (ErrorObj ''SyntaxError'')
   \<and> tryParseJson parse_examples ''null'' = None
   \<and> objects_need_brace parse_examples
   \<and> CHR ''{'' \<notin> set ''The total is 42''
   \<and> strategy1 parse_examples ''The total is 42'' = None
   \<and> parseStructuredResponse parse_examples ''The total is 42''
       = \<lparr>message = ''The total is 42'', actions = None, thinking = None\<rparr>"
proof -
  have h1: "tryParseJson_try parse_examples ''null'' = Inl (ErrorObj ''SyntaxError'')"
    by code_simp
  have h2: "CHR ''{'' \<notin> set ''The total is 42''"
    by simp
  have h3: "strategy1 parse_examples ''The total is 42'' = None"
    by code_simp
  from parser_falls_back_to_text[of parse_examples "''null''" "ErrorObj ''SyntaxError''"
         "''The total is 42''"] h1 h2 parse_examples_ok
  have "tryParseJson parse_examples ''null'' = None"
    and "parseStructuredResponse parse_examples ''The total is 42''
       = \<lparr>message = ''The total is 42'', actions = None, thinking = None\<rparr>"
    by blast+
  then show ?thesis using h1 h2 h3 parse_examples_ok by blast
qed

section \<open>Response parser: which strategies check the message\<close>

text \<open>
  Claim C7, as stated, fails: strategy 3 accepts a parsed value that has no \<open>message\<close>. For
  the text \<^verbatim>\<open>{"type":"calc"}\<close> the parsed object has the single key \<open>type\<close>, and the parser
  returns it as an action under a message of its own.
\<close>

theorem calc_strategy_accepts_without_message:
  "parse_examples calc_text = Some (JObj [(''type'', JStr ''calc'')])
   \<and> get_prop (JObj [(''type'', JStr ''calc'')]) ''message'' = Inr None
   \<and> strategy1 parse_examples calc_text = None
   \<and> strategy2 parse_examples calc_text = None
   \<and> strategy3 parse_examples calc_text
        = Some \<lparr>message = procesando_calculo,
                 actions = Some [JObj [(''type'', JStr ''calc'')]], thinking = None\<rparr>
   \<and> parseStructuredResponse parse_examples calc_text
        = \<lparr>message = procesando_calculo,
            actions = Some [JObj [(''type'', JStr ''calc'')]], thinking = None\<rparr>"
  by code_simp

text \<open>
  Claim C7, amended. The strategies that read a whole envelope (1, 2, 4 and 6) return only
  what \<open>tryParseJson\<close> returns, and \<open>tryParseJson\<close> accepts a parsed value only if it is an object
  with a non-empty string \<open>message\<close>; on invalid JSON, or on a value without such a message, it
  returns nothing. Strategies 3 and 5 wrap whatever their candidate text parses to as the
  single action, without reading a \<open>message\<close>, and return nothing exactly when that text is
  invalid JSON. The parser's result is that of the first strategy, in order, that returns.
\<close>

theorem envelope_strategies_check_message:
  "(tryParseJson jp s = Some r \<longrightarrow>
      (\<exists>kvs m. jp s = Some (JObj kvs) \<and> map_of kvs ''message'' = Some (JStr m) \<and> m \<noteq> []
                \<and> message r = m))
   \<and> (jp s = None \<longrightarrow> tryParseJson jp s = None)
   \<and> ((\<forall>kvs m. jp s = Some (JObj kvs) \<longrightarrow> map_of kvs ''message'' \<noteq> Some (JStr m))
        \<longrightarrow> tryParseJson jp s = None)
   \<and> (strategy1 jp c = Some r \<longrightarrow> (\<exists>g. tryParseJson jp g = Some r))
   \<and> (strategy2 jp c = Some r \<longrightarrow> (\<exists>g. tryParseJson jp g = Some r))
   \<and> (strategy4 jp c = Some r \<longrightarrow> (\<exists>g. tryParseJson jp g = Some r))
   \<and> (strategy6 jp c = Some r \<longrightarrow> (\<exists>g. tryParseJson jp g = Some r))
   \<and> (calc_match c = Some m \<and> jp m = Some v
        \<longrightarrow> (\<exists>r3. strategy3 jp c = Some r3 \<and> actions r3 = Some [v]))
   \<and> (calc_match c = Some m \<and> jp m = None \<longrightarrow> strategy3 jp c = None)
   \<and> (action_match c = Some m' \<and> jp (balanced_from c (startIndex c m')) = Some v'
        \<longrightarrow> (\<exists>r5. strategy5 jp c = Some r5 \<and> actions r5 = Some [v']))
   \<and> (action_match c = Some m' \<and> jp (balanced_from c (startIndex c m')) = None
        \<longrightarrow> strategy5 jp c = None)
   \<and> parseStructuredResponse jp c =
        (case List.find (\<lambda>x. x \<noteq> None)
                [strategy1 jp c, strategy2 jp c, strategy3 jp c,
                 strategy4 jp c, strategy5 jp c, strategy6 jp c] of
           Some (Some r) \<Rightarrow> r
         | _ \<Rightarrow> \<lparr>message = c, actions = None, thinking = None\<rparr>)"
proof (intro conjI impI)
  assume "tryParseJson jp s = Some r"
  then show "\<exists>kvs m. jp s = Some (JObj kvs) \<and> map_of kvs ''message'' = Some (JStr m) \<and> m \<noteq> []
                \<and> message r = m"
    by (rule tryParseJson_object)
next
  assume "jp s = None"
  then show "tryParseJson jp s = None"
    by (simp add: tryParseJson_def tryParseJson_try_def)
next
  assume a: "\<forall>kvs m. jp s = Some (JObj kvs) \<longrightarrow> map_of kvs ''message'' \<noteq> Some (JStr m)"
  show "tryParseJson jp s = None"
  proof (rule ccontr)
    assume "tryParseJson jp s \<noteq> None"
    then obtain r' where "tryParseJson jp s = Some r'" by auto
    from tryParseJson_object[OF this] a show False by blast
  qed
next
  assume "strategy1 jp c = Some r"
  then show "\<exists>g. tryParseJson jp g = Some r"
    by (auto simp: strategy1_def split: option.splits)
next
  assume "strategy2 jp c = Some r"
  then show "\<exists>g. tryParseJson jp g = Some r"
    by (auto simp: strategy2_def split: option.splits if_splits)
next
  assume "strategy4 jp c = Some r"
  then show "\<exists>g. tryParseJson jp g = Some r"
    by (auto simp: strategy4_def split: option.splits)
next
  assume "strategy6 jp c = Some r"
  then show "\<exists>g. tryParseJson jp g = Some r"
    by (auto simp: strategy6_def split: if_splits)
next
  assume "calc_match c = Some m \<and> jp m = Some v"
  then show "\<exists>r3. strategy3 jp c = Some r3 \<and> actions r3 = Some [v]"
    by (simp add: strategy3_def Let_def)
next
  assume "calc_match c = Some m \<and> jp m = None"
  then show "strategy3 jp c = None"
    by (simp add: strategy3_def)
next
  assume "action_match c = Some m' \<and> jp (balanced_from c (startIndex c m')) = Some v'"
  then show "\<exists>r5. strategy5 jp c = Some r5 \<and> actions r5 = Some [v']"
    by (simp add: strategy5_def Let_def)
next
  assume "action_match c = Some m' \<and> jp (balanced_from c (startIndex c m')) = None"
  then show "strategy5 jp c = None"
    by (simp add: strategy5_def Let_def)
next
  show "parseStructuredResponse jp c =
        (case List.find (\<lambda>x. x \<noteq> None)
                [strategy1 jp c, strategy2 jp c, strategy3 jp c,
                 strategy4 jp c, strategy5 jp c, strategy6 jp c] of
           Some (Some r) \<Rightarrow> r
         | _ \<Rightarrow> \<lparr>message = c, actions = None, thinking = None\<rparr>)"
    by (cases "strategy1 jp c"; cases "strategy2 jp c"; cases "strategy3 jp c";
        cases "strategy4 jp c"; cases "strategy5 jp c"; cases "strategy6 jp c";
        simp add: parseStructuredResponse_def)
qed

theorem envelope_strategies_check_message_witness:
  "tryParseJson parse_examples envelope_text
     = Some \<lparr>message = ''ok'', actions = Some [], thinking = None\<rparr>
   \<and> (\<exists>kvs m. parse_examples envelope_text = Some (JObj kvs)
         \<and> map_of kvs ''message'' = Some (JStr m) \<and> m \<noteq> [] \<and> m = ''ok'')
   \<and> parse_examples ''not json'' = None
   \<and> tryParseJson parse_examples ''not json'' = None
   \<and> tryParseJson parse_examples calc_text = None
   \<and> strategy6 parse_examples envelope_text
        = Some \<lparr>message = ''ok'', actions = Some [], thinking = None\<rparr>"
proof -
  have h1: "tryParseJson parse_examples envelope_text
     = Some \<lparr>message = ''ok'', actions = Some [], thinking = None\<rparr>"
    by code_simp
  have h2: "parse_examples ''not json'' = None"
    by code_simp
  have h3: "\<forall>kvs m. parse_examples calc_text = Some (JObj kvs)
               \<longrightarrow> map_of kvs ''message'' \<noteq> Some (JStr m)"
    by (simp add: parse_examples_def)
  have h4: "strategy6 parse_examples envelope_text
        = Some \<lparr>message = ''ok'', actions = Some [], thinking = None\<rparr>"
    by code_simp
  have a: "\<exists>kvs m. parse_examples envelope_text = Some (JObj kvs)
         \<and> map_of kvs ''message'' = Some (JStr m) \<and> m \<noteq> [] \<and> m = ''ok''"
    using envelope_strategies_check_message[where jp = parse_examples and s = envelope_text
            and r = "\<lparr>message = ''ok'', actions = Some [], thinking = None\<rparr>",
            THEN conjunct1] h1
    by auto
  have b: "tryParseJson parse_examples ''not json'' = None"
    using envelope_strategies_check_message[where jp = parse_examples and s = "''not json''",
            THEN conjunct2, THEN conjunct1] h2
    by simp
  have c: "tryParseJson parse_examples calc_text = None"
    using envelope_strategies_check_message[where jp = parse_examples and s = calc_text,
            THEN conjunct2, THEN conjunct2, THEN conjunct1] h3
    by blast
  show ?thesis using h1 a h2 b c h4 by blast
qed

section \<open>Anomaly heuristic: when a batch is flagged\<close>

lemma map_filter_nonempty:
  "List.map_filter f xs \<noteq> [] \<longleftrightarrow> (\<exists>x \<in> set xs. f x \<noteq> None)"
  by (induction xs) (auto simp: map_filter_simps split: option.splits)

lemma stringsOf_set: "set (stringsOf vals) = {s. VStr s \<in> set vals}"
  by (induction vals) (auto simp: stringsOf_def split: CellValue.splits)

lemma verifyAction_flagged:
  assumes ft: "hasFormulaText a"
  shows "verifyAction load a \<noteq> None \<longleftrightarrow>
     (\<exists>vals. readRange load (arange a) (sheetName a) = Inr vals \<and> flagged vals)"
proof (cases "readRange load (arange a) (sheetName a)")
  case (Inl t)
  then show ?thesis by (simp add: verifyAction_def verifyAction_try_def)
next
  case (Inr vals)
  have e: "(0 < length (filter isExcelError (stringsOf vals)))
             = (\<exists>s. VStr s \<in> set vals \<and> isExcelError s)"
    using stringsOf_set[of vals] by (auto simp: filter_empty_conv)
  show ?thesis
    using Inr e ft
    by (simp add: verifyAction_def verifyAction_try_def Let_def flagged_def list_all_iff
             del: length_greater_0_conv)
qed

lemma needsCorrection_map_filter:
  "needsCorrection (verifyFormulaResults load as)
     \<longleftrightarrow> (\<exists>a \<in> set as. verifyAction load a \<noteq> None)"
proof -
  have "needsCorrection (verifyFormulaResults load as)
          \<longleftrightarrow> List.map_filter (verifyAction load) as \<noteq> []"
    by (simp add: verifyFormulaResults_def Let_def)
  also have "\<dots> \<longleftrightarrow> (\<exists>a \<in> set as. verifyAction load a \<noteq> None)"
    by (rule map_filter_nonempty)
  finally show ?thesis .
qed

lemma needsCorrection_iff:
  assumes "\<forall>a \<in> set as. hasFormulaText a"
  shows "needsCorrection (verifyFormulaResults load as) \<longleftrightarrow>
     (\<exists>a \<in> set as. \<exists>vals. readRange load (arange a) (sheetName a) = Inr vals \<and> flagged vals)"
proof -
  have "(\<exists>a \<in> set as. verifyAction load a \<noteq> None) \<longleftrightarrow>
      (\<exists>a \<in> set as. \<exists>vals. readRange load (arange a) (sheetName a) = Inr vals \<and> flagged vals)"
  proof (rule bex_cong[OF refl])
    fix a assume "a \<in> set as"
    with assms have "hasFormulaText a" by blast
    then show "(verifyAction load a \<noteq> None)
                 = (\<exists>vals. readRange load (arange a) (sheetName a) = Inr vals \<and> flagged vals)"
      by (rule verifyAction_flagged)
  qed
  then show ?thesis by (simp only: needsCorrection_map_filter)
qed

text \<open>
  Claim C5, as stated, fails in its "exactly when". Six formulas written to B2:B7 that all
  evaluate to 0 are executed with success; the region then read holds no text at all and only
  6 numbers, not more than 10, and the batch is flagged all the same.
\<close>

theorem six_zeros_flagged:
  "map success (fst (executeActions unknown_action [formula_six] zero_doc)) = [True]
   \<and> readRange (sheet_load (snd (executeActions unknown_action [formula_six] zero_doc)))
        (arange formula_six) (sheetName formula_six) = Inr (replicate 6 (VNum 0))
   \<and> numbersOf (replicate 6 (VNum 0)) = replicate 6 0
   \<and> stringsOf (replicate 6 (VNum 0)) = []
   \<and> needsCorrection
        (verifyFormulaResults (sheet_load (snd (executeActions unknown_action [formula_six] zero_doc)))
           [formula_six])
   \<and> feedback
        (verifyFormulaResults (sheet_load (snd (executeActions unknown_action [formula_six] zero_doc)))
           [formula_six])
        = [AllZeros (Span ''B'' 2 ''B'' 7) 6]"
  by code_simp

text \<open>
  Claim C5, amended. Take a batch of formula actions each of which has a formula text: a
  non-empty \<open>formula\<close>, or a \<open>formulas\<close> field that is absent or a non-empty matrix. The batch is
  flagged exactly when, for some action whose range could be read, the non-empty values read
  hold a text that starts with \<^verbatim>\<open>#\<close> or contains \<^verbatim>\<open>ERROR\<close> or an inverted exclamation mark, or
  more than 5 numbers that are all zero, or more than 10 numbers of which over 90 percent are
  zero. So a region read with at least 10 numbers, all zero, flags its batch. When the batch
  was executed without a failure, \<open>acceptAllActions\<close> then goes on to one result-correction
  request.
\<close>

theorem batch_flagged_iff:
  "((\<forall>a \<in> set as. hasFormulaText a) \<longrightarrow>
      (needsCorrection (verifyFormulaResults load as) \<longleftrightarrow>
        (\<exists>a \<in> set as. \<exists>vals. readRange load (arange a) (sheetName a) = Inr vals
           \<and> ((\<exists>s. VStr s \<in> set vals \<and> isExcelError s)
              \<or> (5 < length (numbersOf vals) \<and> (\<forall>x \<in> set (numbersOf vals). x = 0))
              \<or> (10 < length (numbersOf vals)
                  \<and> 9 * length (numbersOf vals)
                       < 10 * length (filter (\<lambda>x. x = 0) (numbersOf vals)))))))
   \<and> (a \<in> set as \<and> hasFormulaText a \<and> readRange load (arange a) (sheetName a) = Inr vals
        \<and> 10 \<le> length (numbersOf vals) \<and> (\<forall>x \<in> set (numbersOf vals). x = 0)
       \<longrightarrow> needsCorrection (verifyFormulaResults load as))
   \<and> (pending \<noteq> [] \<and> execute e pending w = (results, w1) \<and> (\<forall>s \<in> set results. s)
        \<and> filter (isFormula e) pending \<noteq> []
        \<and> verify e (filter (isFormula e) pending) w1 = (True, w2)
       \<longrightarrow> acceptAllActions (Suc k) e pending ne nr w = requestResultCorrection k e ne nr w2)"
proof (intro conjI impI)
  assume "\<forall>a \<in> set as. hasFormulaText a"
  then show "needsCorrection (verifyFormulaResults load as) \<longleftrightarrow>
      (\<exists>a \<in> set as. \<exists>vals. readRange load (arange a) (sheetName a) = Inr vals
         \<and> ((\<exists>s. VStr s \<in> set vals \<and> isExcelError s)
            \<or> (5 < length (numbersOf vals) \<and> (\<forall>x \<in> set (numbersOf vals). x = 0))
            \<or> (10 < length (numbersOf vals)
                \<and> 9 * length (numbersOf vals)
                     < 10 * length (filter (\<lambda>x. x = 0) (numbersOf vals)))))"
    by (simp only: needsCorrection_iff flagged_def)
next
  assume h: "a \<in> set as \<and> hasFormulaText a \<and> readRange load (arange a) (sheetName a) = Inr vals
        \<and> 10 \<le> length (numbersOf vals) \<and> (\<forall>x \<in> set (numbersOf vals). x = 0)"
  then have "flagged vals" by (auto simp: flagged_def)
  with h have "verifyAction load a \<noteq> None"
    using verifyAction_flagged[of a load] by blast
  with h show "needsCorrection (verifyFormulaResults load as)"
    unfolding needsCorrection_map_filter by blast
next
  assume h: "pending \<noteq> [] \<and> execute e pending w = (results, w1) \<and> (\<forall>s \<in> set results. s)
        \<and> filter (isFormula e) pending \<noteq> []
        \<and> verify e (filter (isFormula e) pending) w1 = (True, w2)"
  then have "\<forall>s \<in> set results. s" by blast
  then have "filter (\<lambda>s. s) results = results"
    by (induction results) auto
  with h show "acceptAllActions (Suc k) e pending ne nr w = requestResultCorrection k e ne nr w2"
    by simp
qed

text \<open>
  Twelve formulas written to B2:B13 that all evaluate to 0: the batch is executed with
  success, the twelve zeros read back flag it, and the orchestrator sends one
  result-correction request, which the agent answers without actions.
\<close>

theorem batch_flagged_iff_witness:
  "formula_twelve \<in> set [formula_twelve]
   \<and> hasFormulaText formula_twelve
   \<and> map success (fst (executeActions unknown_action [formula_twelve] zero_doc)) = [True]
   \<and> readRange (sheet_load (snd (executeActions unknown_action [formula_twelve] zero_doc)))
        (arange formula_twelve) (sheetName formula_twelve) = Inr (replicate 12 (VNum 0))
   \<and> numbersOf (replicate 12 (VNum 0)) = replicate 12 0
   \<and> needsCorrection
        (verifyFormulaResults (sheet_load (snd (executeActions unknown_action [formula_twelve] zero_doc)))
           [formula_twelve])
   \<and> acceptAllActions (Suc 0) sheet_env [formula_twelve] 0 0 zero_doc
        = requestResultCorrection 0 sheet_env 0 0
            (snd (executeActions unknown_action [formula_twelve] zero_doc))
   \<and> map_option (\<lambda>(en, ne, nr, w). (en, ne, nr))
        (acceptAllActions 2 sheet_env [formula_twelve] 0 0 zero_doc)
        = Some (ReplyWithoutActions, 0, 1)"
proof -
  let ?d1 = "snd (executeActions unknown_action [formula_twelve] zero_doc)"
  have h0: "formula_twelve \<in> set [formula_twelve]"
    by simp
  have hT: "hasFormulaText formula_twelve"
    by code_simp
  have hs: "map success (fst (executeActions unknown_action [formula_twelve] zero_doc)) = [True]"
    by code_simp
  have h1: "readRange (sheet_load ?d1) (arange formula_twelve) (sheetName formula_twelve)
              = Inr (replicate 12 (VNum 0))"
    by code_simp
  have h2: "numbersOf (replicate 12 (VNum 0)) = replicate 12 0"
    by code_simp
  have h3: "10 \<le> length (numbersOf (replicate 12 (VNum 0)))"
    by (simp add: h2)
  have h4: "\<forall>x \<in> set (numbersOf (replicate 12 (VNum 0))). x = 0"
    by (simp add: h2)
  note T = batch_flagged_iff[of "[formula_twelve]" "sheet_load ?d1" formula_twelve
            "replicate 12 (VNum 0)" "[formula_twelve]" sheet_env zero_doc "[True]" ?d1 ?d1 0 0 0]
  have a: "needsCorrection (verifyFormulaResults (sheet_load ?d1) [formula_twelve])"
    using T h0 hT h1 h3 h4 by blast
  have p0: "[formula_twelve] \<noteq> []"
    by simp
  have p1: "execute sheet_env [formula_twelve] zero_doc = ([True], ?d1)"
    using hs by (simp add: sheet_env_def)
  have p2: "\<forall>s \<in> set [True]. s"
    by simp
  have p3: "filter (isFormula sheet_env) [formula_twelve] = [formula_twelve]"
    by code_simp
  have p4: "filter (isFormula sheet_env) [formula_twelve] \<noteq> []"
    unfolding p3 by simp
  have p5: "verify sheet_env (filter (isFormula sheet_env) [formula_twelve]) ?d1 = (True, ?d1)"
    unfolding p3 using a by (simp add: sheet_env_def)
  have b: "acceptAllActions (Suc 0) sheet_env [formula_twelve] 0 0 zero_doc
             = requestResultCorrection 0 sheet_env 0 0 ?d1"
    using T p0 p1 p2 p4 p5 by blast
  have c: "map_option (\<lambda>(en, ne, nr, w). (en, ne, nr))
             (acceptAllActions 2 sheet_env [formula_twelve] 0 0 zero_doc)
             = Some (ReplyWithoutActions, 0, 1)"
    by code_simp
  show ?thesis using h0 hT hs h1 h2 a b c by blast
qed

section \<open>Correction orchestrator: the number of rounds\<close>

text \<open>
  Claim C2, as stated, fails: there is no ceiling of one retry round for failures. With an
  agent that answers three error-correction requests with a failing action and the fourth
  with a good one, the orchestrator sends four error-correction requests in the same turn.
\<close>

theorem four_error_rounds:
  "acceptAllActions 10 scripted [False] 0 0 [[False], [False], [False], [True]]
     = Some (Completed, 4, 0, [])"
  by code_simp

lemma stubborn_never_ends:
  "acceptAllActions fuel stubborn [False] ne nr () = None
   \<and> requestErrorCorrection fuel stubborn [False] ne nr () = None"
proof (induction fuel arbitrary: ne nr)
  case 0
  show ?case by simp
next
  case (Suc k)
  have a: "acceptAllActions (Suc k) stubborn [False] ne nr ()
             = requestErrorCorrection k stubborn [False] ne nr ()"
    by (simp add: stubborn_def)
  have b: "requestErrorCorrection (Suc k) stubborn [False] ne nr ()
             = acceptAllActions k stubborn [False] (ne + 1) nr ()"
    by (simp add: stubborn_def)
  show ?case using a b Suc.IH by simp
qed

lemma scripted_rounds:
  "2 * n + 3 \<le> k \<Longrightarrow>
     acceptAllActions k scripted [False] ne 0 (replicate n [False] @ [[True]])
       = Some (Completed, ne + n + 1, 0, [])"
proof (induction n arbitrary: k ne)
  case 0
  then have k: "k = Suc (Suc (Suc (k - 3)))"
    by simp
  show ?case by (subst k) (simp add: scripted_def next_reply_def)
next
  case (Suc n)
  then have k: "k = Suc (Suc (k - 2))" and k': "2 * n + 3 \<le> k - 2"
    by simp_all
  have "acceptAllActions k scripted [False] ne 0 (replicate (Suc n) [False] @ [[True]])
          = acceptAllActions (k - 2) scripted [False] (ne + 1) 0 (replicate n [False] @ [[True]])"
    by (subst k) (simp add: scripted_def next_reply_def)
  also have "\<dots> = Some (Completed, ne + 1 + n + 1, 0, [])"
    by (rule Suc.IH[OF k'])
  finally show ?case by simp
qed

text \<open>
  Claim C2, amended. The correction loop has no retry ceiling: every executed batch with a
  failed action sends one error-correction request, and in auto mode the actions of the reply
  are executed and checked in the same way. After \<open>n\<close> replies that fail again and one that
  succeeds, the turn ends having sent \<open>n + 1\<close> error-correction requests; with an agent whose
  every reply fails again the turn never ends, whatever the fuel.
\<close>

theorem correction_rounds_unbounded:
  "acceptAllActions (2 * n + 3) scripted [False] 0 0 (replicate n [False] @ [[True]])
     = Some (Completed, n + 1, 0, [])
   \<and> acceptAllActions fuel stubborn [False] 0 0 () = None"
  using scripted_rounds[of n "2 * n + 3" 0] stubborn_never_ends[of fuel 0 0] by simp

theorem correction_rounds_unbounded_witness:
  "acceptAllActions 9 scripted [False] 0 0 [[False], [False], [False], [True]]
     = Some (Completed, 4, 0, [])
   \<and> acceptAllActions 1000 stubborn [False] 0 0 () = None"
  using correction_rounds_unbounded[of 3 1000] by (simp add: numeral_eq_Suc)

section \<open>Column letters\<close>

lemma letter_val_char: "m < 26 \<Longrightarrow> letter_val (char_of (65 + m)) = m + 1"
  by (simp add: letter_val_def Let_def of_char_of)

lemma loop_step:
  "0 < n \<Longrightarrow> numberToColumn_loop n acc
     = numberToColumn_loop ((n - 1) div 26) (char_of (65 + (n - 1) mod 26) # acc)"
  by (subst numberToColumn_loop.simps) simp

lemma loop_zero: "numberToColumn_loop 0 acc = acc"
  by (subst numberToColumn_loop.simps) simp

lemma loop_acc: "numberToColumn_loop n acc = numberToColumn_loop n [] @ acc"
proof (induction n arbitrary: acc rule: less_induct)
  case (less n)
  show ?case
  proof (cases "0 < n")
    case True
    have lt: "(n - 1) div 26 < n"
      using True by (metis Suc_pred' div_le_dividend le_imp_less_Suc)
    have a: "numberToColumn_loop n acc
               = numberToColumn_loop ((n - 1) div 26) [] @ (char_of (65 + (n - 1) mod 26) # acc)"
      using loop_step[OF True, of acc] less.IH[OF lt, of "char_of (65 + (n - 1) mod 26) # acc"]
      by simp
    have b: "numberToColumn_loop n []
               = numberToColumn_loop ((n - 1) div 26) [] @ [char_of (65 + (n - 1) mod 26)]"
      using loop_step[OF True, of "[]"] less.IH[OF lt, of "[char_of (65 + (n - 1) mod 26)]"]
      by simp
    show ?thesis by (simp add: a b)
  next
    case False
    then show ?thesis by (simp add: loop_zero)
  qed
qed

lemma numberToColumn_step:
  "0 < n \<Longrightarrow> numberToColumn n
     = numberToColumn ((n - 1) div 26) @ [char_of (65 + (n - 1) mod 26)]"
  unfolding numberToColumn_def
  using loop_step[of n "[]"] loop_acc[of "(n - 1) div 26" "[char_of (65 + (n - 1) mod 26)]"]
  by simp

lemma col_index_snoc: "col_index (s @ [ch]) = col_index s * 26 + letter_val ch"
  by (simp add: col_index_def)

lemma col_index_numberToColumn: "col_index (numberToColumn n) = n"
proof (induction n rule: less_induct)
  case (less n)
  show ?case
  proof (cases "0 < n")
    case True
    have lt: "(n - 1) div 26 < n"
      using True by (metis Suc_pred' div_le_dividend le_imp_less_Suc)
    have "col_index (numberToColumn n)
            = (n - 1) div 26 * 26 + ((n - 1) mod 26 + 1)"
      using numberToColumn_step[OF True] less.IH[OF lt]
      by (simp add: col_index_snoc letter_val_char)
    also have "\<dots> = n"
      using True by simp
    finally show ?thesis .
  next
    case False
    then show ?thesis by (simp add: numberToColumn_def loop_zero col_index_def)
  qed
qed

lemma letters_numberToColumn: "list_all (\<lambda>ch. letter_val ch \<noteq> 0) (numberToColumn n)"
proof (induction n rule: less_induct)
  case (less n)
  show ?case
  proof (cases "0 < n")
    case True
    have lt: "(n - 1) div 26 < n"
      using True by (metis Suc_pred' div_le_dividend le_imp_less_Suc)
    show ?thesis
      using numberToColumn_step[OF True] less.IH[OF lt] by (simp add: letter_val_char)
  next
    case False
    then show ?thesis by (simp add: numberToColumn_def loop_zero)
  qed
qed

lemma valid_numberToColumn: "0 < n \<Longrightarrow> 1 \<le> r \<Longrightarrow> valid_ref (numberToColumn n) r"
  using numberToColumn_step[of n] letters_numberToColumn[of n] by (simp add: valid_ref_def)

section \<open>Reads leave the sheet as it is\<close>

lemma pop_fault_cells [simp]: "cells (pop_fault d) = cells d"
  by (simp add: pop_fault_def)

lemma pop_fault_used [simp]: "used (pop_fault d) = used d"
  by (simp add: pop_fault_def)

lemma split_first_idem [simp]: "split_first (split_first a) = split_first a"
proof (cases a)
  case (OtherText s)
  then show ?thesis by simp
qed simp_all

lemma getRange_start:
  "getRange (split_first a) = Inr sc \<Longrightarrow> ncols sc = 1 \<and> nrows sc = 1"
  by (cases a) (auto split: if_splits)

lemma getRange_top_left:
  "top_left_first a \<Longrightarrow> getRange a = Inr rc \<Longrightarrow>
     \<exists>sc. getRange (split_first a) = Inr sc \<and> col0 rc = col0 sc \<and> row0 rc = row0 sc"
  by (cases a) (auto split: if_splits)

lemma getRange_needs_start:
  "getRange a = Inr rc \<Longrightarrow> \<exists>sc. getRange (split_first a) = Inr sc"
  by (cases a) (auto split: if_splits)

lemma resize_start:
  "ncols sc = 1 \<Longrightarrow> nrows sc = 1 \<Longrightarrow> 1 \<le> nr \<Longrightarrow> 1 \<le> nc \<Longrightarrow>
     getResizedRange sc (int nr - 1) (int nc - 1) = Inr (sc\<lparr>nrows := nr, ncols := nc\<rparr>)"
  by (simp add: getResizedRange_def)

lemma count_nonEmpty_pos:
  "0 < count_nonEmpty vs \<longleftrightarrow> (\<exists>c \<in> set (concat vs). nonEmpty c)"
proof -
  have row: "fold (\<lambda>cell k. if nonEmpty cell then k + 1 else k) row n
               = n + length (filter nonEmpty row)" for row n
    by (induction row arbitrary: n) auto
  have "fold (\<lambda>row n. fold (\<lambda>cell k. if nonEmpty cell then k + 1 else k) row n) vs n
          = n + length (filter nonEmpty (concat vs))" for n
    by (induction vs arbitrary: n) (auto simp: row)
  then have "count_nonEmpty vs = length (filter nonEmpty (concat vs))"
    by (simp add: count_nonEmpty_def)
  then show ?thesis by (auto simp: filter_empty_conv)
qed

lemma range_values_cells:
  "set (concat (range_values d rc)) = {cells d p | p. in_rect rc p}"
  by (auto simp: range_values_def in_rect_def) force

lemma hasData_iff: "0 < count_nonEmpty (range_values d rc) \<longleftrightarrow> \<not> all_empty d rc"
  unfolding count_nonEmpty_pos range_values_cells all_empty_def by auto

lemma isEmptyRange_iff: "isEmptyRange (range_values d rc) \<longleftrightarrow> all_empty d rc"
proof -
  have h: "isEmptyRange (range_values d rc)
             \<longleftrightarrow> (\<forall>c \<in> set (concat (range_values d rc)). \<not> nonEmpty c)"
    by (auto simp: isEmptyRange_def list_all_iff)
  show ?thesis
    unfolding h range_values_cells all_empty_def by auto
qed
section \<open>The guard's probe and search\<close>

lemma range_values_pop [simp]: "range_values (pop_fault d) rc = range_values d rc"
  by (simp add: range_values_def)

lemma all_empty_cells: "cells d' = cells d \<Longrightarrow> all_empty d' rc = all_empty d rc"
  by (simp add: all_empty_def)

lemma guard_dims: "1 \<le> guardRows a \<and> 1 \<le> guardCols a"
  by (auto simp: guardRows_def guardCols_def Let_def Suc_le_eq split: option.splits list.splits)

lemma getRange_pos: "getRange a = Inr rc \<Longrightarrow> 1 \<le> ncols rc \<and> 1 \<le> nrows rc"
  by (cases a) (auto split: if_splits)

lemma check_no_fault:
  assumes "next_fault d = None" and "1 \<le> nr" and "1 \<le> nc"
  shows "checkRangeForData a nr nc d =
           (case getRange (split_first a) of
              Inl t \<Rightarrow> (\<lparr>hasData = False, nonEmptyCells = 0, totalCells = 0\<rparr>, pop_fault d)
            | Inr sc \<Rightarrow>
                (\<lparr>hasData = \<not> all_empty d (sc\<lparr>nrows := nr, ncols := nc\<rparr>),
                  nonEmptyCells = count_nonEmpty (range_values d (sc\<lparr>nrows := nr, ncols := nc\<rparr>)),
                  totalCells = nr * nc\<rparr>, pop_fault d))"
proof (cases "getRange (split_first a)")
  case (Inl t)
  with assms show ?thesis
    by (simp add: checkRangeForData_def Excel_run_def check_body_def)
next
  case (Inr sc)
  from getRange_start[OF Inr] have "ncols sc = 1" and "nrows sc = 1" by simp_all
  from resize_start[OF this assms(2,3)] Inr assms(1) show ?thesis
    by (simp add: checkRangeForData_def Excel_run_def check_body_def hasData_iff)
qed

lemma getRange_testRange:
  assumes "0 < off" and "1 \<le> nr" and "1 \<le> nc"
  shows "getRange (testRange u nr nc off)
           = Inr \<lparr>col0 = ncols u + off, row0 = 1, ncols = nc, nrows = max nr (nrows u)\<rparr>"
proof -
  have v1: "valid_ref (numberToColumn (ncols u + off)) 1"
    using assms by (intro valid_numberToColumn) simp_all
  have v2: "valid_ref (numberToColumn (ncols u + off + nc - 1)) (max nr (nrows u))"
    using assms by (intro valid_numberToColumn) simp_all
  show ?thesis
    using v1 v2 assms by (simp add: testRange_def col_index_numberToColumn min_def max_def)
qed

lemma try_offsets_found:
  assumes "\<forall>off \<in> set offs. 0 < off" and "1 \<le> nr" and "1 \<le> nc"
    and "try_offsets d u nr nc offs = Inr (Some fr)"
  shows "\<exists>off \<in> set offs. fr = Cell (numberToColumn (ncols u + off)) 1
           \<and> all_empty d \<lparr>col0 = ncols u + off, row0 = 1, ncols = nc, nrows = max nr (nrows u)\<rparr>"
  using assms
proof (induction offs)
  case Nil
  then show ?case by simp
next
  case (Cons off rest)
  have pos: "0 < off" using Cons.prems(1) by simp
  note g = getRange_testRange[OF pos Cons.prems(2,3), of u]
  show ?case
  proof (cases "all_empty d \<lparr>col0 = ncols u + off, row0 = 1, ncols = nc, nrows = max nr (nrows u)\<rparr>")
    case True
    with Cons.prems(4) g show ?thesis by (simp add: isEmptyRange_iff)
  next
    case False
    with Cons.prems(4) g have "try_offsets d u nr nc rest = Inr (Some fr)"
      by (simp add: isEmptyRange_iff)
    with Cons.IH Cons.prems show ?thesis by auto
  qed
qed

lemma try_offsets_not_thrown:
  assumes "\<forall>off \<in> set offs. 0 < off" and "1 \<le> nr" and "1 \<le> nc"
  shows "\<exists>r. try_offsets d u nr nc offs = Inr r"
  using assms
proof (induction offs)
  case Nil
  then show ?case by simp
next
  case (Cons off rest)
  have pos: "0 < off" using Cons.prems(1) by simp
  note g = getRange_testRange[OF pos Cons.prems(2,3), of u]
  from Cons show ?case by (simp add: g)
qed

lemma find_body_result:
  assumes "1 \<le> nr" and "1 \<le> nc" and "find_body nr nc d = Inr (found, d')"
  shows "d' = d \<and> (\<forall>fr. found = Some fr \<longrightarrow>
           (used d = None \<and> fr = Cell ''A'' 1)
           \<or> (\<exists>u k. used d = Some u \<and> 0 < k \<and> fr = Cell (numberToColumn k) 1
                 \<and> all_empty d \<lparr>col0 = k, row0 = 1, ncols = nc, nrows = max nr (nrows u)\<rparr>))"
proof (cases "used d")
  case None
  with assms(3) show ?thesis by (auto simp: find_body_def)
next
  case (Some u)
  have pos2: "0 < (2::nat)" by simp
  note g = getRange_testRange[OF pos2 assms(1,2), of u]
  show ?thesis
  proof (cases "all_empty d \<lparr>col0 = ncols u + 2, row0 = 1, ncols = nc, nrows = max nr (nrows u)\<rparr>")
    case True
    with Some assms(3) g have "d' = d" and "found = Some (Cell (numberToColumn (ncols u + 2)) 1)"
      by (simp_all add: find_body_def isEmptyRange_iff)
    with Some True show ?thesis by auto
  next
    case False
    have offs: "\<forall>off \<in> set [3 ..< 21]. 0 < off" by simp
    from try_offsets_not_thrown[OF offs assms(1,2), of d u]
    obtain r where r: "try_offsets d u nr nc [3 ..< 21] = Inr r" by blast
    with Some False assms(3) g have d': "d' = d" and f: "found = r"
      by (simp_all add: find_body_def isEmptyRange_iff)
    show ?thesis
    proof (intro conjI allI impI)
      show "d' = d" by (rule d')
    next
      fix fr assume "found = Some fr"
      with f r have "try_offsets d u nr nc [3 ..< 21] = Inr (Some fr)" by simp
      from try_offsets_found[OF offs assms(1,2) this]
      obtain off where "off \<in> set [3 ..< 21]" and "fr = Cell (numberToColumn (ncols u + off)) 1"
        and "all_empty d \<lparr>col0 = ncols u + off, row0 = 1, ncols = nc, nrows = max nr (nrows u)\<rparr>"
        by blast
      moreover from this offs have "0 < off" by blast
      ultimately have "0 < ncols u + off" and "fr = Cell (numberToColumn (ncols u + off)) 1"
        and "all_empty d \<lparr>col0 = ncols u + off, row0 = 1, ncols = nc, nrows = max nr (nrows u)\<rparr>"
        by simp_all
      with Some show "(used d = None \<and> fr = Cell ''A'' 1)
           \<or> (\<exists>u k. used d = Some u \<and> 0 < k \<and> fr = Cell (numberToColumn k) 1
                 \<and> all_empty d \<lparr>col0 = k, row0 = 1, ncols = nc, nrows = max nr (nrows u)\<rparr>)"
        by (intro disjI2 exI[of _ u] exI[of _ "ncols u + off"]) simp
    qed
  qed
qed

lemma find_result:
  assumes "1 \<le> nr" and "1 \<le> nc" and "findEmptyRangeForData nr nc d = (found, d')"
  shows "cells d' = cells d \<and> (\<forall>fr. found = Some fr \<longrightarrow>
           (used d = None \<and> fr = Cell ''A'' 1)
           \<or> (\<exists>u k. used d = Some u \<and> 0 < k \<and> fr = Cell (numberToColumn k) 1
                 \<and> all_empty d \<lparr>col0 = k, row0 = 1, ncols = nc, nrows = max nr (nrows u)\<rparr>))"
proof (cases "next_fault d")
  case (Some t)
  with assms(3) show ?thesis
    by (auto simp: findEmptyRangeForData_def Excel_run_def)
next
  case None
  show ?thesis
  proof (cases "find_body nr nc (pop_fault d)")
    case (Inl t)
    with None assms(3) show ?thesis
      by (auto simp: findEmptyRangeForData_def Excel_run_def)
  next
    case (Inr fd)
    obtain f2 d2 where fd: "fd = (f2, d2)" by (cases fd)
    from find_body_result[OF assms(1,2), of "pop_fault d" f2 d2] Inr fd
    have d2: "d2 = pop_fault d"
      and r: "\<forall>fr. f2 = Some fr \<longrightarrow>
           (used (pop_fault d) = None \<and> fr = Cell ''A'' 1)
           \<or> (\<exists>u k. used (pop_fault d) = Some u \<and> 0 < k \<and> fr = Cell (numberToColumn k) 1
                 \<and> all_empty (pop_fault d)
                      \<lparr>col0 = k, row0 = 1, ncols = nc, nrows = max nr (nrows u)\<rparr>)"
      by simp_all
    from None Inr fd assms(3) have "found = f2" and "d' = d2"
      by (simp_all add: findEmptyRangeForData_def Excel_run_def)
    with d2 r show ?thesis
      by (simp add: all_empty_def)
  qed
qed

section \<open>What the guard lets through\<close>

lemma guard_result:
  assumes ty: "atype a = ''write'' \<or> atype a = ''formula''"
    and no: "\<not> allowOverwrite a"
    and nf: "next_fault d = None"
    and co: "coherent d"
    and g: "guard a d = (res, d1)"
  shows "cells d1 = cells d
     \<and> (\<forall>f. res = Inl f \<longrightarrow> \<not> success f)
     \<and> (\<forall>fr w. res = Inr (fr, w) \<longrightarrow>
          (fr = arange a \<and> w = None
             \<and> (\<forall>sc. getRange (split_first (arange a)) = Inr sc \<longrightarrow> all_empty d (target a sc)))
          \<or> (\<exists>k u. 0 < k \<and> fr = Cell (numberToColumn k) 1 \<and> used d = Some u
                \<and> (\<exists>n. w = Some n)
                \<and> all_empty d \<lparr>col0 = k, row0 = 1, ncols = guardCols a,
                                 nrows = max (guardRows a) (nrows u)\<rparr>
                \<and> (\<exists>sc. getRange (split_first (arange a)) = Inr sc
                        \<and> \<not> all_empty d (target a sc))))"
proof -
  note dims = guard_dims[of a]
  from dims have nr: "1 \<le> guardRows a" and nc: "1 \<le> guardCols a" by simp_all
  note chk = check_no_fault[OF nf nr nc, of "split_first (arange a)"]
  show ?thesis
  proof (cases "getRange (split_first (arange a))")
    case (Inl t)
    with chk have "checkRangeForData (split_first (arange a)) (guardRows a) (guardCols a) d
                     = (\<lparr>hasData = False, nonEmptyCells = 0, totalCells = 0\<rparr>, pop_fault d)"
      by simp
    with g ty no have "res = Inr (arange a, None)" and "d1 = pop_fault d"
      by (auto simp: guard_def)
    with Inl show ?thesis by simp
  next
    case (Inr sc)
    let ?T = "sc\<lparr>nrows := guardRows a, ncols := guardCols a\<rparr>"
    have T: "target a sc = ?T" by (simp add: target_def)
    from chk Inr
    have c: "checkRangeForData (split_first (arange a)) (guardRows a) (guardCols a) d
               = (\<lparr>hasData = \<not> all_empty d ?T,
                   nonEmptyCells = count_nonEmpty (range_values d ?T),
                   totalCells = guardRows a * guardCols a\<rparr>, pop_fault d)"
      by simp
    show ?thesis
    proof (cases "all_empty d ?T")
      case True
      with c g ty no have "res = Inr (arange a, None)" and "d1 = pop_fault d"
        by (auto simp: guard_def)
      with Inr True T show ?thesis by simp
    next
      case False
      then obtain p where "nonEmpty (cells d p)" unfolding all_empty_def by blast
      with co have "\<exists>u. used d = Some u \<and> in_rect u p" unfolding coherent_def by blast
      then obtain u0 where u0: "used d = Some u0" by blast
      obtain found d2 where f: "findEmptyRangeForData (guardRows a) (guardCols a) (pop_fault d)
                                  = (found, d2)"
        by (cases "findEmptyRangeForData (guardRows a) (guardCols a) (pop_fault d)")
      from find_result[OF nr nc f]
      have cd2: "cells d2 = cells d"
        and fr: "\<forall>fr. found = Some fr \<longrightarrow>
           (\<exists>u k. used d = Some u \<and> 0 < k \<and> fr = Cell (numberToColumn k) 1
                 \<and> all_empty (pop_fault d) \<lparr>col0 = k, row0 = 1, ncols = guardCols a,
                                 nrows = max (guardRows a) (nrows u)\<rparr>)"
        using u0 by auto
      show ?thesis
      proof (cases found)
        case None
        with c g ty no False f
        have "\<exists>fl. res = Inl fl \<and> \<not> success fl" and "d1 = d2"
          by (auto simp: guard_def)
        with cd2 show ?thesis by auto
      next
        case (Some fr0)
        with c g ty no False f
        have r: "res = Inr (fr0, Some (count_nonEmpty (range_values d ?T)))" and "d1 = d2"
          by (auto simp: guard_def)
        from fr Some obtain u k where "used d = Some u" and "0 < k"
          and "fr0 = Cell (numberToColumn k) 1"
          and "all_empty (pop_fault d) \<lparr>col0 = k, row0 = 1, ncols = guardCols a,
                                 nrows = max (guardRows a) (nrows u)\<rparr>"
          by blast
        moreover from this have "all_empty d \<lparr>col0 = k, row0 = 1, ncols = guardCols a,
                                 nrows = max (guardRows a) (nrows u)\<rparr>"
          by (simp add: all_empty_def)
        ultimately show ?thesis
          using r \<open>d1 = d2\<close> cd2 Inr False T by auto
      qed
    qed
  qed
qed
section \<open>What the dispatch writes\<close>

lemma setValues_effect:
  "setValues rc m d = Inr d' \<Longrightarrow>
     fits rc m \<and> (\<forall>p. \<not> in_rect rc p \<longrightarrow> cells d' p = cells d p)"
  by (auto simp: setValues_def split: if_splits)

lemma fits_rows: "fits rc m \<Longrightarrow> length m = nrows rc \<and> (\<forall>row \<in> set m. length row = ncols rc)"
  by (simp add: fits_def list_all_iff)

lemma firstRowLength_pos: "1 \<le> firstRowLength vs"
  by (auto simp: firstRowLength_def Suc_le_eq split: list.splits)

lemma single_cell_within:
  assumes tl: "top_left_first fr" and r: "getRange fr = Inr rc"
    and one: "nrows rc = 1" "ncols rc = 1" and p: "in_rect rc p"
  shows "\<exists>sc. getRange (split_first fr) = Inr sc \<and> in_rect (target a sc) p"
proof -
  from getRange_top_left[OF tl r] obtain sc where
    sc: "getRange (split_first fr) = Inr sc" and c: "col0 rc = col0 sc" and w: "row0 rc = row0 sc"
    by blast
  from p one c w guard_dims[of a] have "in_rect (target a sc) p"
    by (auto simp: in_rect_def target_def)
  with sc show ?thesis by blast
qed

lemma write_matrix_within:
  assumes vs: "avalues a = Some vs" "vs \<noteq> []"
    and sc: "getRange (split_first fr) = Inr sc"
    and rs: "getResizedRange sc (int (length vs) - 1) (int (firstRowLength vs) - 1) = Inr rc"
    and ft: "fits rc vs"
  shows "rc = target a sc"
proof -
  from getRange_start[OF sc] have one: "ncols sc = 1" "nrows sc = 1" by simp_all
  from vs(2) have len: "1 \<le> length vs" by (simp add: Suc_le_eq)
  from resize_start[OF one len firstRowLength_pos[of vs]] rs
  have rc: "rc = sc\<lparr>nrows := length vs, ncols := firstRowLength vs\<rparr>" by simp
  from vs(2) obtain row rest where v: "vs = row # rest" by (cases vs) auto
  from fits_rows[OF ft] rc v have "length row = firstRowLength vs" by simp
  with v have nz: "length row \<noteq> 0" by (auto simp: firstRowLength_def split: if_splits)
  with v have frl: "firstRowLength vs = length row" by (simp add: firstRowLength_def)
  from vs(1) v nz have "guardRows a = length vs" and "guardCols a = length row"
    by (simp_all add: guardRows_def guardCols_def)
  with rc frl show ?thesis by (simp add: target_def)
qed

lemma formula_matrix_within:
  assumes own: "own_payload a" and ty: "atype a = ''formula''"
    and fs: "aformulas a = Some fs"
    and tl: "top_left_first fr" and r: "getRange fr = Inr rc"
    and ft: "fits rc (map (map g) (map (map h) fs))" and p: "in_rect rc p"
  shows "\<exists>sc. getRange (split_first fr) = Inr sc \<and> in_rect (target a sc) p"
proof -
  from getRange_top_left[OF tl r] obtain sc where
    sc: "getRange (split_first fr) = Inr sc" and c: "col0 rc = col0 sc" and w: "row0 rc = row0 sc"
    by blast
  from fits_rows[OF ft] have len: "length fs = nrows rc"
    and rows: "\<forall>row \<in> set fs. length row = ncols rc"
    by auto
  from getRange_pos[OF r] have pos: "1 \<le> ncols rc" "1 \<le> nrows rc" by simp_all
  from len pos obtain row rest where f: "fs = row # rest" by (cases fs) auto
  with rows have rl: "length row = ncols rc" by simp
  from own ty fs have "avalues a = None \<or> avalues a = Some []" by (simp add: own_payload_def)
  with fs f rl pos len have "guardRows a = nrows rc" and "guardCols a = ncols rc"
    by (auto simp: guardRows_def guardCols_def)
  with p c w have "in_rect (target a sc) p"
    by (simp add: in_rect_def target_def)
  with sc show ?thesis by blast
qed

lemma dispatch_write_matrix:
  "atype a = ''write'' \<Longrightarrow> avalues a = Some vs \<Longrightarrow> vs \<noteq> [] \<Longrightarrow>
     dispatch other a fr w d =
       (case getRange (split_first fr) of
          Inl t \<Rightarrow> Inl t
        | Inr sc \<Rightarrow>
           (case getResizedRange sc (int (length vs) - 1) (int (firstRowLength vs) - 1) of
              Inl t \<Rightarrow> Inl t
            | Inr rc \<Rightarrow>
               (case setValues rc vs d of
                  Inl t \<Rightarrow> Inl t
                | Inr d' \<Rightarrow> Inr (DatosEscritos w (length vs) (firstRowLength vs)
                                  (split_first fr), d'))))"
  by (auto simp: dispatch_def cong: sum.case_cong)

lemma dispatch_write_value:
  "atype a = ''write'' \<Longrightarrow> \<not> (avalues a \<noteq> None \<and> the (avalues a) \<noteq> []) \<Longrightarrow>
     avalue a = Some v \<Longrightarrow>
     dispatch other a fr w d =
       (case getRange fr of
          Inl t \<Rightarrow> Inl t
        | Inr rc \<Rightarrow>
           (case setValues rc [[v]] d of
              Inl t \<Rightarrow> Inl t
            | Inr d' \<Rightarrow> Inr (ValorEscrito w fr, d')))"
  by (auto simp: dispatch_def cong: sum.case_cong)

lemma dispatch_write_nothing:
  "atype a = ''write'' \<Longrightarrow> \<not> (avalues a \<noteq> None \<and> the (avalues a) \<noteq> []) \<Longrightarrow>
     avalue a = None \<Longrightarrow> dispatch other a fr w d = Inr (SinDatos fr, d)"
  by (auto simp: dispatch_def cong: sum.case_cong)

lemma dispatch_formulas:
  "atype a = ''formula'' \<Longrightarrow> aformulas a = Some fs \<Longrightarrow>
     dispatch other a fr w d =
       (case getRange fr of
          Inl t \<Rightarrow> Inl t
        | Inr rc \<Rightarrow>
           (case setValues rc (map (map (evalf d)) (map (map normalizeFormula) fs)) d of
              Inl t \<Rightarrow> Inl t
            | Inr d' \<Rightarrow> Inr (FormulasEscritas w fr, d')))"
  by (auto simp: dispatch_def setFormulas_def cong: sum.case_cong)

lemma dispatch_formula:
  "atype a = ''formula'' \<Longrightarrow> aformulas a = None \<Longrightarrow>
     aformula a \<noteq> None \<and> the (aformula a) \<noteq> [] \<Longrightarrow>
     \<exists>m. dispatch other a fr w d =
       (case getRange fr of
          Inl t \<Rightarrow> Inl t
        | Inr rc \<Rightarrow>
           (case setValues rc [[m]] d of
              Inl t \<Rightarrow> Inl t
            | Inr d' \<Rightarrow> Inr (FormulaEscrita w fr, d')))"
  by (auto simp: dispatch_def setFormulas_def cong: sum.case_cong)

lemma dispatch_formula_nothing:
  "atype a = ''formula'' \<Longrightarrow> aformulas a = None \<Longrightarrow>
     \<not> (aformula a \<noteq> None \<and> the (aformula a) \<noteq> []) \<Longrightarrow>
     dispatch other a fr w d = Inr (SinFormula fr, d)"
  by (auto simp: dispatch_def cong: sum.case_cong)

lemma dispatch_within:
  assumes ty: "atype a = ''write'' \<or> atype a = ''formula''"
    and own: "own_payload a" and tl: "top_left_first fr"
    and dp: "dispatch other a fr w d = Inr (msg, d')"
    and ch: "cells d' p \<noteq> cells d p"
  shows "\<exists>sc. getRange (split_first fr) = Inr sc \<and> in_rect (target a sc) p"
proof (cases "atype a = ''write''")
  case wr: True
  show ?thesis
  proof (cases "avalues a \<noteq> None \<and> the (avalues a) \<noteq> []")
    case True
    then obtain vs where vs: "avalues a = Some vs" "vs \<noteq> []" by auto
    from dp dispatch_write_matrix[OF wr vs, of other fr w d]
    obtain sc rc where sc: "getRange (split_first fr) = Inr sc"
      and rs: "getResizedRange sc (int (length vs) - 1) (int (firstRowLength vs) - 1) = Inr rc"
      and sv: "setValues rc vs d = Inr d'"
      by (auto split: sum.splits)
    from setValues_effect[OF sv] ch have ft: "fits rc vs" and p: "in_rect rc p" by blast+
    from write_matrix_within[OF vs sc rs ft] p sc show ?thesis by auto
  next
    case nov: False
    show ?thesis
    proof (cases "avalue a")
      case None
      from dp dispatch_write_nothing[OF wr nov None, of other fr w d] have "d' = d" by simp
      with ch show ?thesis by simp
    next
      case (Some v)
      from dp dispatch_write_value[OF wr nov Some, of other fr w d]
      obtain rc where r: "getRange fr = Inr rc"
        and sv: "setValues rc [[v]] d = Inr d'"
        by (auto split: sum.splits)
      from setValues_effect[OF sv] ch have ft: "fits rc [[v]]" and p: "in_rect rc p" by blast+
      from fits_rows[OF ft] have "nrows rc = 1" "ncols rc = 1" by simp_all
      from single_cell_within[OF tl r this p] show ?thesis .
    qed
  qed
next
  case nwr: False
  with ty have fo: "atype a = ''formula''" by simp
  show ?thesis
  proof (cases "aformulas a")
    case (Some fs)
    from dp dispatch_formulas[OF fo Some, of other fr w d]
    obtain rc where r: "getRange fr = Inr rc"
      and sv: "setValues rc (map (map (evalf d)) (map (map normalizeFormula) fs)) d = Inr d'"
      by (auto split: sum.splits)
    from setValues_effect[OF sv] ch
    have ft: "fits rc (map (map (evalf d)) (map (map normalizeFormula) fs))"
      and p: "in_rect rc p" by blast+
    from formula_matrix_within[OF own fo Some tl r ft p] show ?thesis .
  next
    case None
    show ?thesis
    proof (cases "aformula a \<noteq> None \<and> the (aformula a) \<noteq> []")
      case False
      from dp dispatch_formula_nothing[OF fo None False, of other fr w d] have "d' = d" by simp
      with ch show ?thesis by simp
    next
      case True
      from dispatch_formula[OF fo None True, of other fr w d]
      obtain m where "dispatch other a fr w d =
          (case getRange fr of
             Inl t \<Rightarrow> Inl t
           | Inr rc \<Rightarrow>
              (case setValues rc [[m]] d of
                 Inl t \<Rightarrow> Inl t
               | Inr d' \<Rightarrow> Inr (FormulaEscrita w fr, d')))"
        by blast
      with dp obtain rc where r: "getRange fr = Inr rc"
        and sv: "setValues rc [[m]] d = Inr d'"
        by (auto split: sum.splits)
      from setValues_effect[OF sv] ch have ft: "fits rc [[m]]" and p: "in_rect rc p" by blast+
      from fits_rows[OF ft] have "nrows rc = 1" "ncols rc = 1" by simp_all
      from single_cell_within[OF tl r this p] show ?thesis .
    qed
  qed
qed

lemma validate_cells: "cells (snd (validateWriteAction a fr d)) = cells d"
proof (cases "next_fault d")
  case (Some t)
  then show ?thesis by (simp add: validateWriteAction_def Excel_run_def)
next
  case None
  show ?thesis
  proof (cases "validate_read a fr (pop_fault d)")
    case (Inl t)
    with None show ?thesis by (simp add: validateWriteAction_def Excel_run_def)
  next
    case (Inr vd)
    obtain vs d2 where vd: "vd = (vs, d2)" by (cases vd)
    with Inr have "d2 = pop_fault d"
      by (auto simp: validate_read_def split: if_splits sum.splits)
    with None Inr vd show ?thesis by (simp add: validateWriteAction_def Excel_run_def)
  qed
qed

lemma execute_cells:
  assumes ty: "atype a = ''write'' \<or> atype a = ''formula''"
    and g: "guard a d = (Inr (fr, w), d1)"
  shows "cells (snd (executeSingleAction other a d)) = cells d1
         \<or> (\<exists>msg d2. dispatch other a fr w (pop_fault d1) = Inr (msg, d2)
               \<and> cells (snd (executeSingleAction other a d)) = cells d2)"
proof (cases "next_fault d1")
  case (Some t)
  with g show ?thesis
    by (simp add: executeSingleAction_def executeSingleAction_try_def Excel_run_def)
next
  case None
  show ?thesis
  proof (cases "dispatch other a fr w (pop_fault d1)")
    case (Inl t)
    with None g show ?thesis
      by (simp add: executeSingleAction_def executeSingleAction_try_def Excel_run_def)
  next
    case (Inr md)
    obtain msg d2 where md: "md = (msg, d2)" by (cases md)
    obtain vr d3 where v: "validateWriteAction a fr d2 = (vr, d3)"
      by (cases "validateWriteAction a fr d2")
    with validate_cells[of a fr d2] have c3: "cells d3 = cells d2" by simp
    from None Inr md g ty v have "snd (executeSingleAction other a d) = d3"
      by (auto simp: executeSingleAction_def executeSingleAction_try_def Excel_run_def)
    with c3 Inr md show ?thesis by auto
  qed
qed

lemma execute_guard_failure:
  "guard a d = (Inl f, d1) \<Longrightarrow> executeSingleAction other a d = (f, d1)"
  by (simp add: executeSingleAction_def executeSingleAction_try_def)

section \<open>Collision guard: existing data is kept\<close>

text \<open>
  Claim C1, as stated, fails: when the guard's own read throws, the action is executed on the
  range it asked for. On the sheet with "old" in A1, with that read throwing, the guard lets a
  write of "x" to A1 through unchanged, and the write replaces "old".
\<close>

theorem failed_probe_overwrites:
  "\<not> allowOverwrite write_a1
   \<and> cells probe_fault_doc (1, 1) = VStr ''old''
   \<and> fst (guard write_a1 probe_fault_doc) = Inr (Cell ''A'' 1, None)
   \<and> success (fst (executeSingleAction unknown_action write_a1 probe_fault_doc))
   \<and> cells (snd (executeSingleAction unknown_action write_a1 probe_fault_doc)) (1, 1) = VStr ''x''"
  by code_simp

text \<open>
  Claim C1, amended. Take a write or formula action without \<open>allowOverwrite\<close> whose range is
  written top-left corner first and which, when it is a formula action with a formula matrix,
  carries no value matrix; let the guard's read of the target region not throw, on a sheet
  whose used range contains its non-empty cells. Then executing the action changes no
  non-empty cell. And when the target region, the start cell resized to the payload, holds a
  non-empty cell, either the guard returns a failure, which is the action's result, and no
  cell changes, or it moves the write to row 1 of a column where the region of the payload's
  size is empty, which is not the target region.
\<close>

theorem guarded_write_keeps_data:
  assumes ty: "atype a = ''write'' \<or> atype a = ''formula''"
    and no: "\<not> allowOverwrite a"
    and nf: "next_fault d = None"
    and co: "coherent d"
    and tl: "top_left_first (arange a)"
    and own: "own_payload a"
  shows "(\<forall>p. nonEmpty (cells d p) \<longrightarrow> cells (snd (executeSingleAction other a d)) p = cells d p)
     \<and> (\<forall>sc. getRange (split_first (arange a)) = Inr sc \<and> \<not> all_empty d (target a sc) \<longrightarrow>
          (\<exists>f. fst (guard a d) = Inl f \<and> \<not> success f
                \<and> fst (executeSingleAction other a d) = f
                \<and> cells (snd (executeSingleAction other a d)) = cells d)
          \<or> (\<exists>k n. 0 < k \<and> fst (guard a d) = Inr (Cell (numberToColumn k) 1, Some n)
                \<and> getRange (Cell (numberToColumn k) 1)
                     = Inr \<lparr>col0 = k, row0 = 1, ncols = 1, nrows = 1\<rparr>
                \<and> all_empty d (target a \<lparr>col0 = k, row0 = 1, ncols = 1, nrows = 1\<rparr>)
                \<and> target a \<lparr>col0 = k, row0 = 1, ncols = 1, nrows = 1\<rparr> \<noteq> target a sc))"
proof -
  obtain res d1 where g: "guard a d = (res, d1)" by (cases "guard a d")
  note gr = guard_result[OF ty no nf co g]
  note c1 = gr[THEN conjunct1]
  note gl = gr[THEN conjunct2, THEN conjunct1, rule_format]
  note gd = gr[THEN conjunct2, THEN conjunct2, rule_format]
  have shrink: "all_empty d (target a \<lparr>col0 = k, row0 = 1, ncols = 1, nrows = 1\<rparr>)"
    if "all_empty d \<lparr>col0 = k, row0 = 1, ncols = guardCols a,
                     nrows = max (guardRows a) (nrows u)\<rparr>" for k u
  proof (unfold all_empty_def, intro allI impI)
    fix p
    assume "in_rect (target a \<lparr>col0 = k, row0 = 1, ncols = 1, nrows = 1\<rparr>) p"
    then have "in_rect \<lparr>col0 = k, row0 = 1, ncols = guardCols a,
                         nrows = max (guardRows a) (nrows u)\<rparr> p"
      by (simp add: in_rect_def target_def max_def)
    with that show "\<not> nonEmpty (cells d p)" unfolding all_empty_def by blast
  qed
  have cellk: "getRange (Cell (numberToColumn k) 1)
                 = Inr \<lparr>col0 = k, row0 = 1, ncols = 1, nrows = 1\<rparr>" if "0 < k" for k
    using that valid_numberToColumn[of k 1] by (simp add: col_index_numberToColumn)
  have safe: "all_empty d (target a sc)"
    if r: "res = Inr (fr, w)" and s: "getRange (split_first fr) = Inr sc" for fr w sc
  proof -
    from gd[OF r] show ?thesis
    proof (elim disjE conjE exE)
      assume "fr = arange a"
        and "\<forall>sc. getRange (split_first (arange a)) = Inr sc \<longrightarrow> all_empty d (target a sc)"
      with s show ?thesis by simp
    next
      fix k u n sc'
      assume k: "0 < k" and fr: "fr = Cell (numberToColumn k) 1"
        and e: "all_empty d \<lparr>col0 = k, row0 = 1, ncols = guardCols a,
                              nrows = max (guardRows a) (nrows u)\<rparr>"
      from s fr cellk[OF k] have "sc = \<lparr>col0 = k, row0 = 1, ncols = 1, nrows = 1\<rparr>" by simp
      with shrink[OF e] show ?thesis by simp
    qed
  qed
  have tlf: "top_left_first fr" if r: "res = Inr (fr, w)" for fr w
    using gd[OF r] tl by (elim disjE conjE exE) simp_all
  have keep: "cells (snd (executeSingleAction other a d)) p = cells d p"
    if ne: "nonEmpty (cells d p)" for p
  proof (cases res)
    case (Inl f)
    with g execute_guard_failure[of a d f d1 other] c1 show ?thesis by simp
  next
    case (Inr fw)
    obtain fr w where fw: "fw = (fr, w)" by (cases fw)
    with Inr have r: "res = Inr (fr, w)" by simp
    from r g have g': "guard a d = (Inr (fr, w), d1)" by simp
    from execute_cells[OF ty g', of other] show ?thesis
    proof (elim disjE exE conjE)
      assume "cells (snd (executeSingleAction other a d)) = cells d1"
      with c1 show ?thesis by simp
    next
      fix msg d2
      assume dp: "dispatch other a fr w (pop_fault d1) = Inr (msg, d2)"
        and cz: "cells (snd (executeSingleAction other a d)) = cells d2"
      show ?thesis
      proof (rule ccontr)
        assume "cells (snd (executeSingleAction other a d)) p \<noteq> cells d p"
        with cz c1 have "cells d2 p \<noteq> cells (pop_fault d1) p" by simp
        from dispatch_within[OF ty own tlf[OF r] dp this]
        obtain sc where sc: "getRange (split_first fr) = Inr sc" and "in_rect (target a sc) p"
          by blast
        with safe[OF r sc] ne show False unfolding all_empty_def by blast
      qed
    qed
  qed
  have reloc: "(\<exists>f. fst (guard a d) = Inl f \<and> \<not> success f
                \<and> fst (executeSingleAction other a d) = f
                \<and> cells (snd (executeSingleAction other a d)) = cells d)
          \<or> (\<exists>k n. 0 < k \<and> fst (guard a d) = Inr (Cell (numberToColumn k) 1, Some n)
                \<and> getRange (Cell (numberToColumn k) 1)
                     = Inr \<lparr>col0 = k, row0 = 1, ncols = 1, nrows = 1\<rparr>
                \<and> all_empty d (target a \<lparr>col0 = k, row0 = 1, ncols = 1, nrows = 1\<rparr>)
                \<and> target a \<lparr>col0 = k, row0 = 1, ncols = 1, nrows = 1\<rparr> \<noteq> target a sc)"
    if s: "getRange (split_first (arange a)) = Inr sc" and ne: "\<not> all_empty d (target a sc)" for sc
  proof (cases res)
    case (Inl f)
    from gl[OF Inl] have nf: "\<not> success f" .
    from Inl g have g': "guard a d = (Inl f, d1)" by simp
    from execute_guard_failure[OF g', of other] have "executeSingleAction other a d = (f, d1)" .
    with g' nf c1 show ?thesis by simp
  next
    case (Inr fw)
    obtain fr w where fw: "fw = (fr, w)" by (cases fw)
    with Inr have r: "res = Inr (fr, w)" by simp
    from gd[OF r] show ?thesis
    proof (elim disjE conjE exE)
      assume "\<forall>sc. getRange (split_first (arange a)) = Inr sc \<longrightarrow> all_empty d (target a sc)"
      with s ne show ?thesis by simp
    next
      fix k u n sc'
      assume k: "0 < k" and fr: "fr = Cell (numberToColumn k) 1" and w: "w = Some n"
        and e: "all_empty d \<lparr>col0 = k, row0 = 1, ncols = guardCols a,
                              nrows = max (guardRows a) (nrows u)\<rparr>"
      note e' = shrink[OF e]
      from e' ne have df: "target a \<lparr>col0 = k, row0 = 1, ncols = 1, nrows = 1\<rparr> \<noteq> target a sc"
        by metis
      from g r fr w have "fst (guard a d) = Inr (Cell (numberToColumn k) 1, Some n)" by simp
      with k cellk[OF k] e' df show ?thesis by blast
    qed
  qed
  from keep reloc show ?thesis by blast
qed

text \<open>
  On the sheet with "old" in A1 and a probe that does not throw, the write of "x" to A1 is
  moved to C1 and "old" stays.
\<close>

theorem guarded_write_keeps_data_witness:
  "next_fault old_doc = None
   \<and> cells old_doc (1, 1) = VStr ''old''
   \<and> cells (snd (executeSingleAction unknown_action write_a1 old_doc)) (1, 1) = VStr ''old''
   \<and> fst (guard write_a1 old_doc) = Inr (Cell ''C'' 1, Some 1)
   \<and> cells (snd (executeSingleAction unknown_action write_a1 old_doc)) (3, 1) = VStr ''x''"
proof -
  have ty: "atype write_a1 = ''write'' \<or> atype write_a1 = ''formula''"
    by (simp add: write_a1_def write_x_def)
  have no: "\<not> allowOverwrite write_a1"
    by (simp add: write_a1_def write_x_def)
  have nf: "next_fault old_doc = None"
    by (simp add: next_fault_def old_doc_def)
  have co: "coherent old_doc"
    by (auto simp: coherent_def old_doc_def nonEmpty_def in_rect_def split: if_splits)
  have tl: "top_left_first (arange write_a1)"
    by (simp add: write_a1_def write_x_def)
  have own: "own_payload write_a1"
    by (simp add: own_payload_def write_a1_def write_x_def)
  have c: "cells old_doc (1, 1) = VStr ''old''"
    by (simp add: old_doc_def)
  then have ne: "nonEmpty (cells old_doc (1, 1))"
    by (simp add: nonEmpty_def)
  from guarded_write_keeps_data[OF ty no nf co tl own, of unknown_action] ne
  have k: "cells (snd (executeSingleAction unknown_action write_a1 old_doc)) (1, 1)
             = cells old_doc (1, 1)"
    by blast
  have g: "fst (guard write_a1 old_doc) = Inr (Cell ''C'' 1, Some 1)"
    by code_simp
  have x: "cells (snd (executeSingleAction unknown_action write_a1 old_doc)) (3, 1) = VStr ''x''"
    by code_simp
  from nf c k g x show ?thesis by simp
qed

end
